theory Spec2Isabelle
  imports Complex_Main "HOL-Library.Word"
begin

section \<open>The steam particle system of \<^verbatim>\<open>main.go\<close>\<close>

text \<open>
  Conventions of the embedding.
  \<^item> Go's \<^verbatim>\<open>int64\<close> (a particle's lifetime, the millisecond clock) is \<open>64 word\<close>:
    subtraction wraps, comparisons read the word as two's complement.
  \<^item> Go's \<^verbatim>\<open>int\<close> (grid dimensions, cell counts, indices) is \<open>int\<close>. No arithmetic on
    these values can overflow: counts are bounded by the number of particles, and the
    only sums, \<^verbatim>\<open>row + dir[0]\<close> and \<^verbatim>\<open>col + dir[1]\<close>, feed a range check that rejects
    the wrapped and the unwrapped value alike.
  \<^item> Go's \<^verbatim>\<open>float64\<close> is idealised as \<open>real\<close>: finite values, exact arithmetic. Infinities
    and NaN are outside the model, and so is the rounding of an integer of magnitude
    above \<open>2 ^ 53\<close> when it is converted to \<^verbatim>\<open>float64\<close>. A statement about the model
    therefore speaks for the program only when the scale it was built with is finite
    (neither NaN nor infinite) and the width is below \<open>2 ^ 53\<close>; the statements about
    reachable states say so.
  \<^item> A Go \<^verbatim>\<open>string\<close> is its sequence of bytes, a \<open>char list\<close>; the shade glyphs are
    three bytes each in UTF-8.
  \<^item> The ambient random generator and the wall clock are inputs: every function that
    draws random numbers takes the generator and returns the advanced one, and every
    function that reads the clock takes the reading \<open>now\<close>.
  \<^item> A failed index check (a run-time panic) and \<^verbatim>\<open>log.Fatal\<close> are values of \<open>error\<close>.
\<close>

type_synonym int64 = "64 word"
type_synonym float64 = real

datatype error = Fatal string | IndexOutOfRange

subsection \<open>Data\<close>

record Particle =
  Lifetime :: int64
  Speed :: float64
  X :: float64
  Y :: float64

text \<open>
  The numeric fields of \<^verbatim>\<open>ParticleParams\<close>; its fields \<^verbatim>\<open>X\<close> and \<^verbatim>\<open>Y\<close> (the grid width and
  height) are \<open>ParamsX\<close> and \<open>ParamsY\<close> here, since a particle has fields of the same
  names.
\<close>

record ParticleParams =
  MaxLife :: int64
  MaxSpeed :: float64
  ParticleCount :: int
  ParamsX :: int
  ParamsY :: int
  Scale :: float64

text \<open>
  What one call of \<^verbatim>\<open>reset\<close> obtains from package \<^verbatim>\<open>math/rand\<close>, in call order: two
  results of \<^verbatim>\<open>rand.Float64()\<close> and one of \<^verbatim>\<open>rand.NormFloat64()\<close>. The generator is the
  sequence of the draws still to come.
\<close>

record Draws =
  u_life :: float64
  u_speed :: float64
  n_x :: float64

type_synonym rng = "nat \<Rightarrow> Draws"

text \<open>\<^verbatim>\<open>rand.Float64()\<close> returns a number in the half-open interval from 0 to 1.\<close>

definition valid_draws :: "Draws \<Rightarrow> bool" where
  "valid_draws d \<longleftrightarrow> 0 \<le> u_life d \<and> u_life d < 1 \<and> 0 \<le> u_speed d \<and> u_speed d < 1"

definition valid_rng :: "rng \<Rightarrow> bool" where
  "valid_rng g \<longleftrightarrow> (\<forall>n. valid_draws (g n))"

type_synonym NextPosition = "Particle \<Rightarrow> int64 \<Rightarrow> Particle"
type_synonym Ascii = "int \<Rightarrow> int \<Rightarrow> int list list \<Rightarrow> error + string"
type_synonym Reset = "Particle \<Rightarrow> ParticleParams \<Rightarrow> rng \<Rightarrow> Particle \<times> rng"

text \<open>
  \<^verbatim>\<open>ParticleSystem\<close> embeds \<^verbatim>\<open>ParticleParams\<close>. The three function-valued fields of the
  parameters are kept beside the numeric ones (\<open>reset\<close> takes the parameters as an
  argument, so a record cannot hold both); the policy field \<^verbatim>\<open>reset\<close> is \<open>resetPolicy\<close>,
  the name \<open>reset\<close> being the function of that name. The pool holds one freshly
  allocated particle per slot, so no two slots alias.
\<close>

record ParticleSystem =
  ParticleParams :: ParticleParams
  nextPosition :: NextPosition
  ascii :: Ascii
  resetPolicy :: Reset
  particles :: "Particle list"
  lastTime :: int64

type_synonym Coffee = ParticleSystem

subsection \<open>Arithmetic of the Go library\<close>

text \<open>Go's \<^verbatim>\<open>%\<close> truncates towards zero: the result has the sign of the dividend.\<close>

definition go_rem :: "int \<Rightarrow> int \<Rightarrow> int" where
  "go_rem a b = sgn a * (\<bar>a\<bar> mod \<bar>b\<bar>)"

text \<open>\<^verbatim>\<open>math.Round\<close> rounds half away from zero.\<close>

definition go_round :: "float64 \<Rightarrow> int" where
  "go_round x = (if x < 0 then - \<lfloor>- x + 1 / 2\<rfloor> else \<lfloor>x + 1 / 2\<rfloor>)"

text \<open>\<^verbatim>\<open>strings.Join\<close>.\<close>

fun Join :: "string list \<Rightarrow> string \<Rightarrow> string" where
  "Join [] sep = []"
| "Join [s] sep = s"
| "Join (s # t # ss) sep = s @ sep @ Join (t # ss) sep"

subsection \<open>The particle system\<close>

definition NewParticleSystem ::
  "ParticleParams \<Rightarrow> NextPosition \<Rightarrow> Ascii \<Rightarrow> Reset \<Rightarrow> int64 \<Rightarrow> ParticleSystem" where
  "NewParticleSystem params np asc rs now =
     \<lparr>ParticleParams = params, nextPosition = np, ascii = asc, resetPolicy = rs,
      particles = replicate (nat (ParticleCount params))
                    \<lparr>Lifetime = 0, Speed = 0, X = 0, Y = 0\<rparr>,
      lastTime = now\<rparr>"

text \<open>The loop of \<^verbatim>\<open>Start\<close>: every particle of the pool is reset, in order.\<close>

fun reset_each :: "Reset \<Rightarrow> ParticleParams \<Rightarrow> Particle list \<Rightarrow> rng \<Rightarrow> Particle list \<times> rng" where
  "reset_each rs params [] g = ([], g)"
| "reset_each rs params (p # ps) g =
     (let (p', g') = rs p params g;
          (ps', g'') = reset_each rs params ps g'
      in (p' # ps', g''))"

definition Start :: "ParticleSystem \<Rightarrow> rng \<Rightarrow> ParticleSystem \<times> rng" where
  "Start ps g =
     (let (qs, g') = reset_each (resetPolicy ps) (ParticleParams ps) (particles ps) g
      in (ps\<lparr>particles := qs\<rparr>, g'))"

text \<open>The boundary test of \<^verbatim>\<open>Update\<close>, on a particle that has just been moved.\<close>

definition out_of_play :: "ParticleParams \<Rightarrow> Particle \<Rightarrow> bool" where
  "out_of_play params p \<longleftrightarrow>
     Y p \<ge> real_of_int (ParamsY params) \<or> X p \<ge> real_of_int (ParamsX params) \<or> Lifetime p \<le>s 0"

text \<open>The body of the loop of \<^verbatim>\<open>Update\<close>, for one particle.\<close>

definition update_one ::
  "NextPosition \<Rightarrow> Reset \<Rightarrow> ParticleParams \<Rightarrow> int64 \<Rightarrow> Particle \<Rightarrow> rng \<Rightarrow> Particle \<times> rng" where
  "update_one np rs params delta p g =
     (let q = np p delta
      in if out_of_play params q then rs q params g else (q, g))"

fun update_each ::
  "NextPosition \<Rightarrow> Reset \<Rightarrow> ParticleParams \<Rightarrow> int64 \<Rightarrow> Particle list \<Rightarrow> rng
     \<Rightarrow> Particle list \<times> rng" where
  "update_each np rs params delta [] g = ([], g)"
| "update_each np rs params delta (p # ps) g =
     (let (p', g') = update_one np rs params delta p g;
          (ps', g'') = update_each np rs params delta ps g'
      in (p' # ps', g''))"

definition Update :: "ParticleSystem \<Rightarrow> int64 \<Rightarrow> rng \<Rightarrow> ParticleSystem \<times> rng" where
  "Update ps now g =
     (let delta = now - lastTime ps;
          (qs, g') = update_each (nextPosition ps) (resetPolicy ps) (ParticleParams ps) delta
                       (particles ps) g
      in (ps\<lparr>lastTime := now, particles := qs\<rparr>, g'))"

subsection \<open>The density renderer\<close>

text \<open>The grid of zeros: \<open>ParamsY\<close> rows of \<open>ParamsX\<close> cells, none when the bound is not positive.\<close>

definition zero_counts :: "int \<Rightarrow> int \<Rightarrow> int list list" where
  "zero_counts w h = replicate (nat h) (replicate (nat w) 0)"

text \<open>\<^verbatim>\<open>counts[row][col]++\<close>, with the two index checks of the Go run time.\<close>

definition incr_cell :: "int list list \<Rightarrow> int \<Rightarrow> int \<Rightarrow> error + int list list" where
  "incr_cell counts row col =
     (if row < 0 \<or> row \<ge> int (length counts) then Inl IndexOutOfRange
      else if col < 0 \<or> col \<ge> int (length (counts ! nat row)) then Inl IndexOutOfRange
      else Inr (counts[nat row := (counts ! nat row)[nat col := counts ! nat row ! nat col + 1]]))"

text \<open>The cell of a particle: \<^verbatim>\<open>int(math.Floor(p.Y))\<close> and \<^verbatim>\<open>int(math.Round(p.X))\<close>.\<close>

definition cell_row :: "Particle \<Rightarrow> int" where
  "cell_row p = \<lfloor>Y p\<rfloor>"

definition cell_col :: "Particle \<Rightarrow> int" where
  "cell_col p = go_round (X p)"

fun count_cells :: "Particle list \<Rightarrow> int list list \<Rightarrow> error + int list list" where
  "count_cells [] counts = Inr counts"
| "count_cells (p # ps) counts =
     (case incr_cell counts (cell_row p) (cell_col p) of
        Inl e \<Rightarrow> Inl e
      | Inr counts' \<Rightarrow> count_cells ps counts')"

text \<open>A loop whose body may panic: the first error ends it.\<close>

fun map_err :: "('a \<Rightarrow> error + 'b) \<Rightarrow> 'a list \<Rightarrow> error + 'b list" where
  "map_err f [] = Inr []"
| "map_err f (x # xs) =
     (case f x of
        Inl e \<Rightarrow> Inl e
      | Inr y \<Rightarrow> (case map_err f xs of Inl e \<Rightarrow> Inl e | Inr ys \<Rightarrow> Inr (y # ys)))"

text \<open>\<^verbatim>\<open>reverse\<close>: two indices walk towards each other and swap in place.\<close>

function reverse_loop :: "'a list \<Rightarrow> int \<Rightarrow> int \<Rightarrow> 'a list" where
  "reverse_loop arr i j =
     (if i < j
      then reverse_loop (arr[nat i := arr ! nat j, nat j := arr ! nat i]) (i + 1) (j - 1)
      else arr)"
  by pat_completeness auto
termination
  by (relation "measure (\<lambda>(arr, i, j). nat (j - i))") auto

declare reverse_loop.simps [simp del]

definition reverse :: "'a list \<Rightarrow> 'a list" where
  "reverse arr = reverse_loop arr 0 (int (length arr) - 1)"

definition Display :: "ParticleSystem \<Rightarrow> error + string" where
  "Display ps =
     (case count_cells (particles ps)
             (zero_counts (ParamsX (ParticleParams ps)) (ParamsY (ParticleParams ps))) of
        Inl e \<Rightarrow> Inl e
      | Inr counts \<Rightarrow>
          (case map_err (\<lambda>r. map_err (\<lambda>c. ascii ps (int r) (int c) counts)
                               [0..<length (counts ! r)])
                  [0..<length counts] of
             Inl e \<Rightarrow> Inl e
           | Inr out \<Rightarrow> Inr (Join (map (\<lambda>row. Join row []) (reverse out)) [CHR 0x0A])))"

subsection \<open>The neighbour count and the declumping pass\<close>

definition dirs :: "(int \<times> int) list" where
  "dirs = [(-1, -1), (-1, 0), (-1, 1), (0, -1), (0, 1), (1, 0), (1, 1), (1, -1)]"

text \<open>
  The loop of \<^verbatim>\<open>countParticles\<close> over the directions still to visit. The range test
  short-circuits, so \<^verbatim>\<open>counts[0]\<close> is read only when the grid has a row; the read
  \<^verbatim>\<open>counts[r][c]\<close> is checked against the row it reads.
\<close>

fun countParticles_loop ::
  "(int \<times> int) list \<Rightarrow> int \<Rightarrow> int \<Rightarrow> int list list \<Rightarrow> int \<Rightarrow> error + int" where
  "countParticles_loop [] row col counts count = Inr count"
| "countParticles_loop ((dr, dc) # ds) row col counts count =
     (let r = row + dr; c = col + dc
      in if r < 0 \<or> r \<ge> int (length counts) \<or> c < 0 \<or> c \<ge> int (length (counts ! 0))
         then countParticles_loop ds row col counts count
         else if c \<ge> int (length (counts ! nat r)) then Inl IndexOutOfRange
         else countParticles_loop ds row col counts (counts ! nat r ! nat c))"

definition countParticles :: "int \<Rightarrow> int \<Rightarrow> int list list \<Rightarrow> error + int" where
  "countParticles row col counts = countParticles_loop dirs row col counts 0"

definition normalize_cell :: "int \<Rightarrow> int \<Rightarrow> int list list \<Rightarrow> error + int list list" where
  "normalize_cell row col counts =
     (case countParticles row col counts of
        Inl e \<Rightarrow> Inl e
      | Inr n \<Rightarrow>
          if n > 4
          then (if row < 0 \<or> row \<ge> int (length counts) then Inl IndexOutOfRange
                else if col < 0 \<or> col \<ge> int (length (counts ! nat row)) then Inl IndexOutOfRange
                else Inr (counts[nat row := (counts ! nat row)[nat col := 0]]))
          else Inr counts)"

subsection \<open>The steam effect\<close>

text \<open>
  \<^verbatim>\<open>reset\<close>. \<open>max\<close> and \<open>min\<close> stand for \<^verbatim>\<open>math.Max\<close> and \<^verbatim>\<open>math.Min\<close> on finite arguments, and
  \<open>real_of_int\<close> for the conversion \<^verbatim>\<open>float64(params.X)\<close> of a width it represents exactly.
  Outside that range the program differs from the model: \<^verbatim>\<open>math.Min\<close> and \<^verbatim>\<open>math.Max\<close> return
  NaN when an argument is NaN, so that a NaN scale (or an infinite one, when the normal
  draw is 0) leaves \<^verbatim>\<open>p.X\<close> NaN, which no comparison of \<^verbatim>\<open>Update\<close> detects; and an odd width
  above \<open>2 ^ 53\<close> is rounded by the conversion, so that the clipped \<open>x\<close> can exceed it.
\<close>

definition reset :: Reset where
  "reset p params g =
     (let d = g 0;
          lifetime = word_of_int \<lfloor>real_of_int (sint (MaxLife params)) * u_life d\<rfloor>;
          speed = MaxSpeed params * u_speed d;
          maxX = real_of_int \<lfloor>real_of_int (ParamsX params) / 2\<rfloor>;
          x = max (- maxX) (min (n_x d * Scale params) maxX)
      in (p\<lparr>Lifetime := lifetime, Speed := speed, X := x + maxX, Y := 0\<rparr>, \<lambda>n. g (Suc n)))"

definition nextPos :: NextPosition where
  "nextPos p deltaMs =
     (let p1 = p\<lparr>Lifetime := Lifetime p - deltaMs\<rparr>
      in if Lifetime p1 \<le>s 0 then p1
         else let percent = real_of_int (sint deltaMs) / 2000
              in p1\<lparr>Y := Y p1 + Speed p1 * percent\<rparr>)"

text \<open>The five glyphs: a space and U+2591, U+2592, U+2593, U+2588 in UTF-8.\<close>

definition glyph_blank :: string where "glyph_blank = [CHR 0x20]"
definition glyph_light :: string where "glyph_light = [CHR 0xE2, CHR 0x96, CHR 0x91]"
definition glyph_medium :: string where "glyph_medium = [CHR 0xE2, CHR 0x96, CHR 0x92]"
definition glyph_dark :: string where "glyph_dark = [CHR 0xE2, CHR 0x96, CHR 0x93]"
definition glyph_solid :: string where "glyph_solid = [CHR 0xE2, CHR 0x96, CHR 0x88]"

text \<open>The closure \<^verbatim>\<open>ascii\<close> of \<^verbatim>\<open>NewCoffee\<close>: it reads its cell, then walks the thresholds.\<close>

definition coffee_ascii :: Ascii where
  "coffee_ascii row col counts =
     (if row < 0 \<or> row \<ge> int (length counts) then Inl IndexOutOfRange
      else if col < 0 \<or> col \<ge> int (length (counts ! nat row)) then Inl IndexOutOfRange
      else let count = counts ! nat row ! nat col
           in Inr (if count = 0 then glyph_blank
                   else if count < 4 then glyph_light
                   else if count < 6 then glyph_medium
                   else if count < 9 then glyph_dark
                   else glyph_solid))"

text \<open>
  \<^verbatim>\<open>NewCoffee\<close>. \<^verbatim>\<open>log.Fatal\<close> prints its message and exits the process, so nothing after
  it runs; \<open>now\<close> is the clock reading that \<^verbatim>\<open>NewParticleSystem\<close> stores.
\<close>

definition NewCoffee :: "int \<Rightarrow> int \<Rightarrow> float64 \<Rightarrow> int64 \<Rightarrow> error + Coffee" where
  "NewCoffee width height scale now =
     (if go_rem width 2 = 0 then Inl (Fatal ''width must be odd number'')
      else Inr (NewParticleSystem
                 \<lparr>MaxLife = 7000, MaxSpeed = 3 / 2, ParticleCount = 60,
                  ParamsX = width, ParamsY = height, Scale = scale\<rparr>
                 nextPos coffee_ascii reset now))"

subsection \<open>A run of the program\<close>

text \<open>
  \<^verbatim>\<open>main\<close> builds the effect, starts it and then, at every tick, calls \<^verbatim>\<open>Update\<close> and prints
  \<^verbatim>\<open>Display\<close>. \<open>updates\<close> is the sequence of \<^verbatim>\<open>Update\<close> calls, one per clock reading of
  \<open>ticks\<close>; \<open>session\<close> is the state after construction at time \<open>t0\<close>, \<^verbatim>\<open>Start\<close> and these
  updates, for any width, height and scale (\<^verbatim>\<open>main\<close> passes 71, 8 and 4.5). \<^verbatim>\<open>Display\<close> does
  not change the state, so it does not appear.
\<close>

fun updates :: "ParticleSystem \<Rightarrow> rng \<Rightarrow> int64 list \<Rightarrow> ParticleSystem \<times> rng" where
  "updates ps g [] = (ps, g)"
| "updates ps g (now # ticks) = (let (ps', g') = Update ps now g in updates ps' g' ticks)"

definition session ::
  "int \<Rightarrow> int \<Rightarrow> float64 \<Rightarrow> int64 \<Rightarrow> rng \<Rightarrow> int64 list \<Rightarrow> error + Coffee" where
  "session width height scale t0 g ticks =
     (case NewCoffee width height scale t0 of
        Inl e \<Rightarrow> Inl e
      | Inr coffee \<Rightarrow> (let (c, g') = Start coffee g in Inr (fst (updates c g' ticks))))"

text \<open>The clock does not run backwards: no call of \<^verbatim>\<open>Update\<close> computes a negative delta.\<close>

fun forward :: "int64 \<Rightarrow> int64 list \<Rightarrow> bool" where
  "forward t [] = True"
| "forward t (now # ticks) = (0 \<le>s now - t \<and> forward now ticks)"

text \<open>A generator that returns the same draws for ever.\<close>

definition const_rng :: "Draws \<Rightarrow> rng" where
  "const_rng d n = d"

subsection \<open>Notions used in the statements\<close>

text \<open>The glyph that the closure \<open>coffee_ascii\<close> returns for a cell holding \<open>n\<close>.\<close>

definition shade :: "int \<Rightarrow> string" where
  "shade n = (case coffee_ascii 0 0 [[n]] of Inr s \<Rightarrow> s | Inl e \<Rightarrow> [])"

text \<open>A grid of \<open>h\<close> rows of \<open>w\<close> cells each.\<close>

definition is_grid :: "int \<Rightarrow> int \<Rightarrow> int list list \<Rightarrow> bool" where
  "is_grid w h counts \<longleftrightarrow> length counts = nat h \<and> (\<forall>row \<in> set counts. length row = nat w)"

text \<open>The cell of the particle lies in a grid of width \<open>w\<close> and height \<open>h\<close>.\<close>

definition in_grid :: "int \<Rightarrow> int \<Rightarrow> Particle \<Rightarrow> bool" where
  "in_grid w h p \<longleftrightarrow> 0 \<le> cell_row p \<and> cell_row p < h \<and> 0 \<le> cell_col p \<and> cell_col p < w"

text \<open>The number of particles whose cell is row \<open>r\<close>, column \<open>c\<close>.\<close>

definition density :: "Particle list \<Rightarrow> nat \<Rightarrow> nat \<Rightarrow> int" where
  "density ps r c = int (length (filter (\<lambda>p. cell_row p = int r \<and> cell_col p = int c) ps))"

text \<open>
  What the specification says a respawn assigns, for the draws \<open>d\<close>: the centre column is
  \<open>floor (width / 2)\<close>, and \<open>x\<close> is the centre plus the scaled normal draw clipped to
  the centre's distance.
\<close>

definition spec_center :: "ParticleParams \<Rightarrow> real" where
  "spec_center params = real_of_int \<lfloor>real_of_int (ParamsX params) / 2\<rfloor>"

definition spec_clip :: "real \<Rightarrow> real \<Rightarrow> real \<Rightarrow> real" where
  "spec_clip v lo hi = max lo (min v hi)"

definition spec_respawn :: "ParticleParams \<Rightarrow> Draws \<Rightarrow> Particle \<Rightarrow> bool" where
  "spec_respawn params d q \<longleftrightarrow>
     sint (Lifetime q) = \<lfloor>real_of_int (sint (MaxLife params)) * u_life d\<rfloor>
     \<and> Speed q = MaxSpeed params * u_speed d
     \<and> X q = spec_center params
               + spec_clip (n_x d * Scale params) (- spec_center params) (spec_center params)
     \<and> Y q = 0"

text \<open>
  The specification's bounds on a particle that has just been respawned.
\<close>

definition spec_fresh :: "ParticleParams \<Rightarrow> Particle \<Rightarrow> bool" where
  "spec_fresh params q \<longleftrightarrow>
     0 \<le> sint (Lifetime q) \<and> sint (Lifetime q) < sint (MaxLife params)
     \<and> 0 \<le> Speed q \<and> Speed q < MaxSpeed params
     \<and> Y q = 0
     \<and> 0 \<le> X q \<and> X q < real_of_int (ParamsX params)"

text \<open>
  The cell lies in a grid of width \<open>w\<close> and height \<open>h\<close>; the neighbours of a cell that do,
  in the order in which \<open>countParticles\<close> visits them.
\<close>

definition in_bounds :: "int \<Rightarrow> int \<Rightarrow> int \<times> int \<Rightarrow> bool" where
  "in_bounds w h cell \<longleftrightarrow> 0 \<le> fst cell \<and> fst cell < h \<and> 0 \<le> snd cell \<and> snd cell < w"

definition neighbours :: "int \<Rightarrow> int \<Rightarrow> int \<Rightarrow> int \<Rightarrow> (int \<times> int) list" where
  "neighbours w h row col = filter (in_bounds w h) (map (\<lambda>(dr, dc). (row + dr, col + dc)) dirs)"

subsection \<open>The invariant of a running steam effect\<close>

text \<open>
  A particle in flight: it does not fall, it is inside the grid, and it is at most at
  the last column.
\<close>

definition in_flight :: "ParticleParams \<Rightarrow> Particle \<Rightarrow> bool" where
  "in_flight params p \<longleftrightarrow>
     0 \<le> Speed p \<and> 0 \<le> Y p \<and> Y p < real_of_int (ParamsY params)
     \<and> 0 \<le> X p \<and> X p \<le> real_of_int (ParamsX params) - 1"

text \<open>
  A system built by \<open>NewCoffee\<close> for width \<open>w\<close>, height \<open>h\<close> and scale \<open>sc\<close>, all of whose
  particles are in flight.
\<close>

definition steam_inv :: "int \<Rightarrow> int \<Rightarrow> float64 \<Rightarrow> ParticleSystem \<Rightarrow> bool" where
  "steam_inv w h sc c \<longleftrightarrow>
     ParticleParams c = \<lparr>MaxLife = 7000, MaxSpeed = 3 / 2, ParticleCount = 60,
                          ParamsX = w, ParamsY = h, Scale = sc\<rparr>
     \<and> nextPosition c = nextPos \<and> ascii c = coffee_ascii \<and> resetPolicy c = reset
     \<and> length (particles c) = 60
     \<and> (\<forall>p \<in> set (particles c). in_flight (ParticleParams c) p)"

subsection \<open>Example inputs\<close>

text \<open>
  A five by three grid with two particles, one about to expire in the source row and
  one in flight a row above; and draws that give a lifetime of 6300 ms and speed 1.
\<close>

definition scene :: ParticleSystem where
  "scene =
     \<lparr>ParticleParams = \<lparr>MaxLife = 7000, MaxSpeed = 3 / 2, ParticleCount = 2,
                         ParamsX = 5, ParamsY = 3, Scale = 0\<rparr>,
      nextPosition = nextPos, ascii = coffee_ascii, resetPolicy = reset,
      particles = [\<lparr>Lifetime = 50, Speed = 1, X = 2, Y = 0\<rparr>,
                   \<lparr>Lifetime = 4300, Speed = 1 / 2, X = 3, Y = 1\<rparr>],
      lastTime = 0\<rparr>"

definition steady :: Draws where
  "steady = \<lparr>u_life = 9 / 10, u_speed = 2 / 3, n_x = 0\<rparr>"

section \<open>Properties\<close>

subsection \<open>Structure of the operations\<close>

lemma go_rem_2_even: "go_rem w 2 = 0 \<longleftrightarrow> even w"
  by (auto simp: go_rem_def sgn_if)

lemma NewCoffee_Inr:
  assumes "NewCoffee w h sc t0 = Inr c"
  shows "odd w"
    and "c = NewParticleSystem
               \<lparr>MaxLife = 7000, MaxSpeed = 3 / 2, ParticleCount = 60,
                ParamsX = w, ParamsY = h, Scale = sc\<rparr> nextPos coffee_ascii reset t0"
  using assms by (auto simp: NewCoffee_def go_rem_2_even split: if_splits)

lemma NewCoffee_odd:
  assumes "odd w"
  shows "NewCoffee w h sc t0 = Inr (NewParticleSystem
                 \<lparr>MaxLife = 7000, MaxSpeed = 3 / 2, ParticleCount = 60,
                  ParamsX = w, ParamsY = h, Scale = sc\<rparr> nextPos coffee_ascii reset t0)"
  using assms by (simp add: NewCoffee_def go_rem_2_even)

lemma Start_fields:
  "ParticleParams (fst (Start ps g)) = ParticleParams ps"
  "nextPosition (fst (Start ps g)) = nextPosition ps"
  "ascii (fst (Start ps g)) = ascii ps"
  "resetPolicy (fst (Start ps g)) = resetPolicy ps"
  "lastTime (fst (Start ps g)) = lastTime ps"
  "particles (fst (Start ps g)) =
     fst (reset_each (resetPolicy ps) (ParticleParams ps) (particles ps) g)"
  "snd (Start ps g) = snd (reset_each (resetPolicy ps) (ParticleParams ps) (particles ps) g)"
  by (simp_all add: Start_def split_beta)

lemma Update_fields:
  "ParticleParams (fst (Update ps now g)) = ParticleParams ps"
  "nextPosition (fst (Update ps now g)) = nextPosition ps"
  "ascii (fst (Update ps now g)) = ascii ps"
  "resetPolicy (fst (Update ps now g)) = resetPolicy ps"
  "lastTime (fst (Update ps now g)) = now"
  "particles (fst (Update ps now g)) =
     fst (update_each (nextPosition ps) (resetPolicy ps) (ParticleParams ps)
            (now - lastTime ps) (particles ps) g)"
  "snd (Update ps now g) =
     snd (update_each (nextPosition ps) (resetPolicy ps) (ParticleParams ps)
            (now - lastTime ps) (particles ps) g)"
  by (simp_all add: Update_def Let_def split_beta)

lemma reset_each_length: "length (fst (reset_each rs params ps g)) = length ps"
  by (induction ps arbitrary: g) (simp_all add: split_beta)

lemma update_each_length: "length (fst (update_each np rs params d ps g)) = length ps"
  by (induction ps arbitrary: g) (simp_all add: split_beta)

lemma update_each_nth:
  "i < length ps \<Longrightarrow>
   fst (update_each np rs params d ps g) ! i =
     fst (update_one np rs params d (ps ! i) (snd (update_each np rs params d (take i ps) g)))"
proof (induction ps arbitrary: i g)
  case Nil
  then show ?case by simp
next
  case (Cons p ps)
  show ?case
  proof (cases i)
    case 0
    then show ?thesis by (simp add: split_beta)
  next
    case (Suc k)
    with Cons.prems have "k < length ps" by simp
    from Cons.IH [OF this] Suc show ?thesis by (simp add: split_beta)
  qed
qed

lemma updates_fields:
  "ParticleParams (fst (updates c g ticks)) = ParticleParams c
   \<and> length (particles (fst (updates c g ticks))) = length (particles c)"
  by (induction ticks arbitrary: c g) (simp_all add: split_beta Update_fields update_each_length)

lemma session_Inr:
  assumes "session w h sc t0 g ticks = Inr c"
  obtains c0 where "NewCoffee w h sc t0 = Inr c0"
    and "c = fst (updates (fst (Start c0 g)) (snd (Start c0 g)) ticks)"
  using assms by (auto simp: session_def split_beta split: sum.splits)

lemma session_fields:
  assumes "session w h sc t0 g ticks = Inr c"
  shows "ParamsX (ParticleParams c) = w" and "ParamsY (ParticleParams c) = h"
    and "length (particles c) = 60"
proof -
  from assms obtain c0 where c0: "NewCoffee w h sc t0 = Inr c0"
    and c: "c = fst (updates (fst (Start c0 g)) (snd (Start c0 g)) ticks)"
    by (rule session_Inr)
  have "ParticleParams c = ParticleParams c0" and "length (particles c) = length (particles c0)"
    by (simp_all add: c updates_fields Start_fields reset_each_length)
  then show "ParamsX (ParticleParams c) = w" and "ParamsY (ParticleParams c) = h"
    and "length (particles c) = 60"
    by (simp_all add: NewCoffee_Inr(2) [OF c0] NewParticleSystem_def)
qed

lemma session_odd:
  assumes "odd w"
  shows "session w h sc t0 g ticks = Inr (projr (session w h sc t0 g ticks))"
  using assms by (simp add: session_def NewCoffee_def go_rem_2_even split_beta)

lemma session_start:
  assumes "odd w"
  shows "projr (session w h sc t0 g []) =
    fst (Start (NewParticleSystem
                 \<lparr>MaxLife = 7000, MaxSpeed = 3 / 2, ParticleCount = 60,
                  ParamsX = w, ParamsY = h, Scale = sc\<rparr> nextPos coffee_ascii reset t0) g)"
  using assms by (simp add: session_def NewCoffee_odd split_beta)

lemma Start_first:
  assumes "NewCoffee w h sc t0 = Inr c0"
  shows "particles (fst (Start c0 g)) \<noteq> []"
    and "hd (particles (fst (Start c0 g)))
           = fst (reset \<lparr>Lifetime = 0, Speed = 0, X = 0, Y = 0\<rparr> (ParticleParams c0) g)"
proof -
  have "particles c0 = \<lparr>Lifetime = 0, Speed = 0, X = 0, Y = 0\<rparr>
      # replicate 59 \<lparr>Lifetime = 0, Speed = 0, X = 0, Y = 0\<rparr>"
    and "resetPolicy c0 = reset"
    by (simp_all add: NewCoffee_Inr(2) [OF assms] NewParticleSystem_def numeral_eq_Suc)
  then show "particles (fst (Start c0 g)) \<noteq> []"
    and "hd (particles (fst (Start c0 g)))
           = fst (reset \<lparr>Lifetime = 0, Speed = 0, X = 0, Y = 0\<rparr> (ParticleParams c0) g)"
    by (simp_all add: Start_fields split_beta)
qed

lemma session_one_update:
  assumes "odd w"
  shows "particles (projr (session w h sc t0 g [now])) ! 0 =
    fst (update_one nextPos reset
           \<lparr>MaxLife = 7000, MaxSpeed = 3 / 2, ParticleCount = 60,
            ParamsX = w, ParamsY = h, Scale = sc\<rparr> (now - t0)
           (fst (reset \<lparr>Lifetime = 0, Speed = 0, X = 0, Y = 0\<rparr>
                   \<lparr>MaxLife = 7000, MaxSpeed = 3 / 2, ParticleCount = 60,
                    ParamsX = w, ParamsY = h, Scale = sc\<rparr> g))
           (snd (Start (NewParticleSystem
                          \<lparr>MaxLife = 7000, MaxSpeed = 3 / 2, ParticleCount = 60,
                           ParamsX = w, ParamsY = h, Scale = sc\<rparr>
                          nextPos coffee_ascii reset t0) g)))"
proof -
  let ?prm = "\<lparr>MaxLife = 7000, MaxSpeed = 3 / 2, ParticleCount = 60,
                  ParamsX = w, ParamsY = h, Scale = sc\<rparr>"
  let ?c0 = "NewParticleSystem ?prm nextPos coffee_ascii reset t0"
  let ?c1 = "fst (Start ?c0 g)"
  note nc = NewCoffee_odd [OF assms, of h sc t0]
  note fs = Start_first [OF nc, where g = g]
  have prm: "ParticleParams ?c0 = ?prm" by (simp add: NewParticleSystem_def)
  have f: "ParticleParams ?c1 = ?prm" "nextPosition ?c1 = nextPos" "resetPolicy ?c1 = reset"
    "lastTime ?c1 = t0"
    by (simp_all add: Start_fields NewParticleSystem_def)
  have len: "0 < length (particles ?c1)" using fs(1) by simp
  have first: "particles ?c1 ! 0 = fst (reset \<lparr>Lifetime = 0, Speed = 0, X = 0, Y = 0\<rparr> ?prm g)"
    using fs by (simp add: hd_conv_nth prm)
  have "projr (session w h sc t0 g [now]) = fst (Update ?c1 now (snd (Start ?c0 g)))"
    by (simp add: session_def nc split_beta)
  then show ?thesis
    using update_each_nth [OF len, of nextPos reset ?prm "now - t0" "snd (Start ?c0 g)"]
    by (simp add: Update_fields f first)
qed

lemma valid_rng_shift: "valid_rng g \<Longrightarrow> valid_rng (\<lambda>n. g (Suc n))"
  by (simp add: valid_rng_def)

lemma valid_rng_0: "valid_rng g \<Longrightarrow> valid_draws (g 0)"
  by (simp add: valid_rng_def)

lemma valid_rng_const: "valid_draws d \<Longrightarrow> valid_rng (const_rng d)"
  by (simp add: valid_rng_def const_rng_def)

lemma valid_steady: "valid_rng (const_rng steady)"
  by (rule valid_rng_const) (simp add: valid_draws_def steady_def)

subsection \<open>Construction\<close>

text \<open>
  Claim C7. \<^verbatim>\<open>NewCoffee\<close> fails, with the fatal message, exactly when the width is even;
  the failure is the whole result, so no particle system, complete or partial, comes
  out of it. With an odd width it returns the system, whatever the other arguments.
\<close>

theorem NewCoffee_fails_iff_even:
  "NewCoffee width height scale now =
     (if even width then Inl (Fatal ''width must be odd number'')
      else Inr (NewParticleSystem
                 \<lparr>MaxLife = 7000, MaxSpeed = 3 / 2, ParticleCount = 60,
                  ParamsX = width, ParamsY = height, Scale = scale\<rparr>
                 nextPos coffee_ascii reset now))
   \<and> ((\<exists>e. NewCoffee width height scale now = Inl e) \<longleftrightarrow> even width)
   \<and> ((\<exists>c. NewCoffee width height scale now = Inr c) \<longleftrightarrow> odd width)"
  by (simp add: NewCoffee_def go_rem_2_even)

theorem NewCoffee_fails_iff_even_witness:
  "NewCoffee 70 8 (9 / 2) 0 = Inl (Fatal ''width must be odd number'')
   \<and> (\<exists>c. NewCoffee 71 8 (9 / 2) 0 = Inr c)"
  using NewCoffee_fails_iff_even [of 70 8 "9 / 2" 0] NewCoffee_fails_iff_even [of 71 8 "9 / 2" 0]
  by simp

text \<open>
  Claim C10. The constructor takes the width, the height and the scale (and, in the model,
  the clock reading); every system it returns has a maximal lifetime of 7000 ms, a maximal
  speed of 1.5 and a pool of 60 particles.
\<close>

theorem NewCoffee_hard_coded:
  assumes "NewCoffee width height scale now = Inr c"
  shows "MaxLife (ParticleParams c) = 7000
    \<and> MaxSpeed (ParticleParams c) = 3 / 2
    \<and> ParticleCount (ParticleParams c) = 60
    \<and> length (particles c) = 60
    \<and> ParamsX (ParticleParams c) = width
    \<and> ParamsY (ParticleParams c) = height
    \<and> Scale (ParticleParams c) = scale"
  using assms by (auto simp: NewCoffee_def NewParticleSystem_def split: if_splits)

theorem NewCoffee_hard_coded_witness:
  "\<exists>c. NewCoffee 71 8 (9 / 2) 0 = Inr c
     \<and> MaxLife (ParticleParams c) = 7000
     \<and> MaxSpeed (ParticleParams c) = 3 / 2
     \<and> ParticleCount (ParticleParams c) = 60
     \<and> length (particles c) = 60"
proof -
  obtain c where c: "NewCoffee 71 8 (9 / 2) 0 = Inr c"
    by (simp add: NewCoffee_def go_rem_def)
  from NewCoffee_hard_coded [OF c] c show ?thesis by simp
qed

subsection \<open>The motion policy\<close>

lemma sint_sub_no_wrap:
  fixes a d :: int64
  assumes "0 <s d" and "- (2 ^ 63) \<le> sint a - sint d"
  shows "sint (a - d) = sint a - sint d"
proof -
  have d: "0 < sint d" using assms(1) by (simp add: word_sless_alt)
  have "sint a < 2 ^ 63" using sint_lt [of a] by simp
  with d have up: "sint a - sint d < 2 ^ 63" by linarith
  have "sint (a - d) = signed_take_bit 63 (sint a - sint d)"
    by (simp add: sint_word_ariths)
  also have "\<dots> = sint a - sint d"
    using assms(2) up by (simp add: signed_take_bit_int_eq_self)
  finally show ?thesis .
qed

text \<open>
  Claim C2. For every particle and every positive \<open>deltaMs\<close>, \<open>nextPos\<close> subtracts \<open>deltaMs\<close>
  from the lifetime (the \<^verbatim>\<open>int64\<close> subtraction, which is the subtraction of integers
  unless it leaves the 64-bit range); if the new lifetime is at most 0 the position is
  unchanged, otherwise \<open>y\<close> grows by \<open>speed * (deltaMs / 2000)\<close>; \<open>x\<close> and the speed are never
  touched.
\<close>

theorem nextPos_spec:
  assumes "0 <s deltaMs"
  shows "Lifetime (nextPos p deltaMs) = Lifetime p - deltaMs
    \<and> X (nextPos p deltaMs) = X p
    \<and> Speed (nextPos p deltaMs) = Speed p
    \<and> (Lifetime p - deltaMs \<le>s 0 \<longrightarrow> Y (nextPos p deltaMs) = Y p)
    \<and> (\<not> Lifetime p - deltaMs \<le>s 0 \<longrightarrow>
         Y (nextPos p deltaMs) = Y p + Speed p * (real_of_int (sint deltaMs) / 2000))
    \<and> (- (2 ^ 63) \<le> sint (Lifetime p) - sint deltaMs \<longrightarrow>
         sint (Lifetime (nextPos p deltaMs)) = sint (Lifetime p) - sint deltaMs)"
  using sint_sub_no_wrap [OF assms, of "Lifetime p"] by (simp add: nextPos_def Let_def)

theorem nextPos_spec_witness:
  "nextPos \<lparr>Lifetime = 500, Speed = 1, X = 2, Y = 3\<rparr> 100
     = \<lparr>Lifetime = 400, Speed = 1, X = 2, Y = 61 / 20\<rparr>
   \<and> Y (nextPos \<lparr>Lifetime = 50, Speed = 1, X = 2, Y = 3\<rparr> 100) = 3
   \<and> sint (Lifetime (nextPos \<lparr>Lifetime = 50, Speed = 1, X = 2, Y = 3\<rparr> 100)) = - 50"
  using nextPos_spec [of 100 "\<lparr>Lifetime = 500, Speed = 1, X = 2, Y = 3\<rparr>"]
    nextPos_spec [of 100 "\<lparr>Lifetime = 50, Speed = 1, X = 2, Y = 3\<rparr>"]
  by (simp add: word_sle_eq word_sless_alt)

subsection \<open>Glyph selection\<close>

text \<open>
  Claim C4. The glyph of a cell depends on the count of that cell alone (it is the glyph
  of a one-cell grid holding the same count): blank for 0, light shade for 1 to 3, medium
  for 4 and 5, dark for 6 to 8, solid from 9 on; the counts 0, 1, 3, 4, 5, 6, 8, 9, 20 give
  blank, light, light, medium, medium, dark, dark, solid, solid.
\<close>

theorem coffee_ascii_thresholds:
  assumes "0 \<le> row" and "row < int (length counts)"
    and "0 \<le> col" and "col < int (length (counts ! nat row))"
    and "n = counts ! nat row ! nat col"
  shows "coffee_ascii row col counts = coffee_ascii 0 0 [[n]]
    \<and> (n = 0 \<longrightarrow> coffee_ascii row col counts = Inr glyph_blank)
    \<and> (1 \<le> n \<and> n \<le> 3 \<longrightarrow> coffee_ascii row col counts = Inr glyph_light)
    \<and> (4 \<le> n \<and> n \<le> 5 \<longrightarrow> coffee_ascii row col counts = Inr glyph_medium)
    \<and> (6 \<le> n \<and> n \<le> 8 \<longrightarrow> coffee_ascii row col counts = Inr glyph_dark)
    \<and> (9 \<le> n \<longrightarrow> coffee_ascii row col counts = Inr glyph_solid)
    \<and> map (\<lambda>k. coffee_ascii 0 0 [[k]]) [0, 1, 3, 4, 5, 6, 8, 9, 20]
        = map Inr [glyph_blank, glyph_light, glyph_light, glyph_medium, glyph_medium,
                   glyph_dark, glyph_dark, glyph_solid, glyph_solid]"
  using assms by (simp add: coffee_ascii_def Let_def)

theorem coffee_ascii_thresholds_witness:
  "coffee_ascii 1 2 [[0, 0, 0], [0, 7, 5]] = Inr glyph_medium
   \<and> coffee_ascii 1 1 [[0, 0, 0], [0, 7, 5]] = Inr glyph_dark
   \<and> coffee_ascii 0 1 [[0, 0, 0], [0, 7, 5]] = Inr glyph_blank
   \<and> coffee_ascii 0 0 [[2]] = Inr glyph_light
   \<and> coffee_ascii 0 0 [[9]] = Inr glyph_solid"
proof -
  have "coffee_ascii 1 2 [[0, 0, 0], [0, 7, 5]] = Inr glyph_medium"
    using coffee_ascii_thresholds [of 1 "[[0, 0, 0], [0, 7, 5]]" 2 5] by auto
  moreover have "coffee_ascii 1 1 [[0, 0, 0], [0, 7, 5]] = Inr glyph_dark"
    using coffee_ascii_thresholds [of 1 "[[0, 0, 0], [0, 7, 5]]" 1 7] by auto
  moreover have "coffee_ascii 0 1 [[0, 0, 0], [0, 7, 5]] = Inr glyph_blank"
    using coffee_ascii_thresholds [of 0 "[[0, 0, 0], [0, 7, 5]]" 1 0] by auto
  moreover have "coffee_ascii 0 0 [[2]] = Inr glyph_light"
    using coffee_ascii_thresholds [of 0 "[[2]]" 0 2] by simp
  moreover have "coffee_ascii 0 0 [[9]] = Inr glyph_solid"
    using coffee_ascii_thresholds [of 0 "[[9]]" 0 9] by simp
  ultimately show ?thesis by simp
qed

lemma shade_eq:
  "shade n = (if n = 0 then glyph_blank else if n < 4 then glyph_light
              else if n < 6 then glyph_medium else if n < 9 then glyph_dark else glyph_solid)"
  by (simp add: shade_def coffee_ascii_def)

lemma coffee_ascii_shade:
  "r < length counts \<Longrightarrow> c < length (counts ! r) \<Longrightarrow>
   coffee_ascii (int r) (int c) counts = Inr (shade (counts ! r ! c))"
  by (simp add: coffee_ascii_def shade_eq Let_def)

lemma shade_glyph:
  "shade n \<in> {glyph_blank, glyph_light, glyph_medium, glyph_dark, glyph_solid}"
  by (simp add: shade_eq)

lemma shade_no_newline: "CHR 0x0A \<notin> set (shade n)"
  by (simp add: shade_eq glyph_blank_def glyph_light_def glyph_medium_def glyph_dark_def
      glyph_solid_def)

subsection \<open>The respawn policy\<close>

lemma floor_half_odd:
  assumes "odd (w::int)"
  shows "real_of_int \<lfloor>real_of_int w / 2\<rfloor> = (real_of_int w - 1) / 2"
proof -
  from assms obtain k where w: "w = 2 * k + 1" by (auto elim: oddE)
  have "real_of_int w / 2 = real_of_int k + 1 / 2" by (simp add: w)
  then have "\<lfloor>real_of_int w / 2\<rfloor> = k" by (simp add: floor_eq_iff)
  then show ?thesis by (simp add: w)
qed

lemma reset_fields:
  "fst (reset p params g) =
     p\<lparr>Lifetime := word_of_int \<lfloor>real_of_int (sint (MaxLife params)) * u_life (g 0)\<rfloor>,
       Speed := MaxSpeed params * u_speed (g 0),
       X := max (- real_of_int \<lfloor>real_of_int (ParamsX params) / 2\<rfloor>)
              (min (n_x (g 0) * Scale params) (real_of_int \<lfloor>real_of_int (ParamsX params) / 2\<rfloor>))
            + real_of_int \<lfloor>real_of_int (ParamsX params) / 2\<rfloor>,
       Y := 0\<rparr>"
  "snd (reset p params g) = (\<lambda>n. g (Suc n))"
  by (simp_all add: reset_def Let_def del: of_int_sint)

lemma reset_lifetime:
  assumes "valid_draws (g 0)" and "0 < sint (MaxLife params)"
  shows "0 \<le> sint (Lifetime (fst (reset p params g)))"
    and "sint (Lifetime (fst (reset p params g))) < sint (MaxLife params)"
    and "sint (Lifetime (fst (reset p params g))) = \<lfloor>real_of_int (sint (MaxLife params)) * u_life (g 0)\<rfloor>"
proof -
  let ?m = "sint (MaxLife params)" and ?u = "u_life (g 0)"
  let ?k = "\<lfloor>real_of_int ?m * ?u\<rfloor>"
  have u: "0 \<le> ?u" "?u < 1" using assms(1) by (simp_all add: valid_draws_def)
  have m: "0 < real_of_int ?m" using assms(2) by (simp del: of_int_sint)
  have "0 \<le> real_of_int ?m * ?u" using u m by (intro mult_nonneg_nonneg) simp_all
  then have k0: "0 \<le> ?k" by (simp del: of_int_sint)
  have "real_of_int ?m * ?u < real_of_int ?m * 1" using u m by (intro mult_strict_left_mono)
  then have km: "?k < ?m" by (simp add: floor_less_iff del: of_int_sint)
  have "?m < 2 ^ 63" using sint_lt [of "MaxLife params"] by simp
  with km have "?k < 2 ^ 63" by linarith
  with k0 have "sint (word_of_int ?k :: int64) = ?k"
    by (simp add: sint_sbintrunc' signed_take_bit_int_eq_self del: of_int_sint)
  then have eq: "sint (Lifetime (fst (reset p params g))) = ?k"
    by (simp add: reset_fields del: of_int_sint)
  show "sint (Lifetime (fst (reset p params g))) = ?k" by (rule eq)
  show "0 \<le> sint (Lifetime (fst (reset p params g)))" using eq k0 by simp
  show "sint (Lifetime (fst (reset p params g))) < ?m" using eq km by simp
qed

lemma reset_speed:
  assumes "valid_draws (g 0)" and "0 < MaxSpeed params"
  shows "0 \<le> Speed (fst (reset p params g))" and "Speed (fst (reset p params g)) < MaxSpeed params"
  using assms by (simp_all add: reset_fields valid_draws_def)

lemma reset_x:
  assumes "odd (ParamsX params)" and "0 < ParamsX params"
  shows "0 \<le> X (fst (reset p params g))"
    and "X (fst (reset p params g)) \<le> real_of_int (ParamsX params) - 1"
proof -
  let ?c = "real_of_int \<lfloor>real_of_int (ParamsX params) / 2\<rfloor>"
  have c: "?c = (real_of_int (ParamsX params) - 1) / 2" using assms(1) by (rule floor_half_odd)
  have "1 \<le> ParamsX params" using assms(2) by simp
  then have c0: "0 \<le> ?c" unfolding c by simp
  show "0 \<le> X (fst (reset p params g))" by (simp add: reset_fields)
  have "max (- ?c) (min (n_x (g 0) * Scale params) ?c) \<le> ?c" using c0 by simp
  then have "X (fst (reset p params g)) \<le> ?c + ?c" by (simp add: reset_fields)
  also have "?c + ?c = real_of_int (ParamsX params) - 1" unfolding c by simp
  finally show "X (fst (reset p params g)) \<le> real_of_int (ParamsX params) - 1" .
qed

lemma valid_rng_reset: "valid_rng g \<Longrightarrow> valid_rng (snd (reset p params g))"
  by (simp add: reset_fields valid_rng_shift)

lemma reset_each_reset:
  assumes "\<And>p g. valid_rng g \<Longrightarrow> P (fst (reset p params g))"
  shows "valid_rng g \<Longrightarrow>
    (\<forall>q \<in> set (fst (reset_each reset params ps g)). P q)
    \<and> valid_rng (snd (reset_each reset params ps g))
    \<and> length (fst (reset_each reset params ps g)) = length ps"
proof (induction ps arbitrary: g)
  case Nil
  then show ?case by simp
next
  case (Cons p ps)
  have "valid_rng (snd (reset p params g))" using Cons.prems by (rule valid_rng_reset)
  from Cons.IH [OF this] assms [OF Cons.prems, of p] show ?case
    by (simp add: split_beta)
qed

lemma reset_respawn:
  assumes "valid_rng g" and "0 < sint (MaxLife params)" and "0 < MaxSpeed params"
    and "odd (ParamsX params)" and "0 < ParamsX params"
  shows "spec_respawn params (g 0) (fst (reset p params g))"
    and "spec_fresh params (fst (reset p params g))"
proof -
  note d = valid_rng_0 [OF assms(1)]
  note l = reset_lifetime [where g = g and p = p, OF d assms(2)]
  note s = reset_speed [where g = g and p = p, OF d assms(3)]
  note x = reset_x [OF assms(4,5), of p g]
  show "spec_respawn params (g 0) (fst (reset p params g))"
    unfolding spec_respawn_def using l(3)
    by (simp add: reset_fields spec_center_def spec_clip_def del: of_int_sint)
  have "Y (fst (reset p params g)) = 0" by (simp add: reset_fields)
  with l(1,2) s x show "spec_fresh params (fst (reset p params g))"
    by (simp add: spec_fresh_def)
qed

text \<open>
  Claim C3, amended. In a steam effect built with a positive width below \<open>2 ^ 53\<close> and a
  finite scale (a real number: neither NaN nor infinite), the respawn policy
  leaves a particle with the lifetime \<open>floor (7000 * u)\<close>, an integer from 0 up to but not
  including 7000, a speed \<open>1.5 * u'\<close> from 0 up to but not including 1.5, \<open>y = 0\<close> and
  \<open>x = center + clip (normalDraw * scale) (- center) center\<close> with \<open>center = floor (width / 2)\<close>,
  so that \<open>0 \<le> x < width\<close>; and every particle is in such a state after \<open>Start\<close>. Here \<open>u\<close>
  and \<open>u'\<close> are the two uniform draws, which lie in the half-open unit interval.
\<close>

theorem respawn_spec:
  fixes sc :: real
  assumes "NewCoffee w h sc t0 = Inr c0" and "0 < w" and "valid_rng g" and "w < 2 ^ 53"
  shows "spec_respawn (ParticleParams c0) (g 0) (fst (reset p (ParticleParams c0) g))
    \<and> spec_fresh (ParticleParams c0) (fst (reset p (ParticleParams c0) g))
    \<and> (\<forall>q \<in> set (particles (fst (Start c0 g))).
          (\<exists>d. valid_draws d \<and> spec_respawn (ParticleParams c0) d q)
          \<and> spec_fresh (ParticleParams c0) q)
    \<and> MaxLife (ParticleParams c0) = 7000 \<and> MaxSpeed (ParticleParams c0) = 3 / 2
    \<and> ParamsX (ParticleParams c0) = w"
proof -
  let ?prm = "ParticleParams c0"
  note c0 = NewCoffee_Inr [OF assms(1)]
  have f: "MaxLife ?prm = 7000" "MaxSpeed ?prm = 3 / 2" "ParamsX ?prm = w" "resetPolicy c0 = reset"
    by (simp_all add: c0(2) NewParticleSystem_def)
  have prm: "0 < sint (MaxLife ?prm)" "0 < MaxSpeed ?prm" "odd (ParamsX ?prm)" "0 < ParamsX ?prm"
    using c0(1) assms(2) by (simp_all add: f)
  have one: "(\<exists>d. valid_draws d \<and> spec_respawn ?prm d (fst (reset p' ?prm g')))
      \<and> spec_fresh ?prm (fst (reset p' ?prm g'))" if "valid_rng g'" for p' g'
    using reset_respawn [OF that prm, of p'] valid_rng_0 [OF that] by blast
  from reset_each_reset [of "\<lambda>q. (\<exists>d. valid_draws d \<and> spec_respawn ?prm d q) \<and> spec_fresh ?prm q"
      ?prm g "particles c0", OF one assms(3)]
  have "\<forall>q \<in> set (particles (fst (Start c0 g))).
          (\<exists>d. valid_draws d \<and> spec_respawn ?prm d q) \<and> spec_fresh ?prm q"
    by (simp add: Start_fields f)
  with reset_respawn [OF assms(3) prm, of p] f show ?thesis by simp
qed

theorem respawn_spec_witness:
  "spec_fresh \<lparr>MaxLife = 7000, MaxSpeed = 3 / 2, ParticleCount = 60,
               ParamsX = 71, ParamsY = 8, Scale = 9 / 2\<rparr>
     (fst (reset \<lparr>Lifetime = 0, Speed = 0, X = 0, Y = 0\<rparr>
             \<lparr>MaxLife = 7000, MaxSpeed = 3 / 2, ParticleCount = 60,
              ParamsX = 71, ParamsY = 8, Scale = 9 / 2\<rparr> (const_rng steady)))
   \<and> list_all (spec_fresh \<lparr>MaxLife = 7000, MaxSpeed = 3 / 2, ParticleCount = 60,
                            ParamsX = 71, ParamsY = 8, Scale = 9 / 2\<rparr>)
       (particles (projr (session 71 8 (9 / 2) 0 (const_rng steady) [])))"
proof -
  have o: "odd (71 :: int)" by simp
  note st = session_start [OF o, where h = 8 and sc = "9 / 2" and ?t0.0 = 0 and g = "const_rng steady"]
  note nc = NewCoffee_odd [OF o, where h = 8 and sc = "9 / 2" and ?t0.0 = 0]
  from respawn_spec [OF nc _ valid_steady, of "\<lparr>Lifetime = 0, Speed = 0, X = 0, Y = 0\<rparr>"]
  show ?thesis by (simp add: st list_all_iff NewParticleSystem_def)
qed

text \<open>
  The claim as first stated, for every width that the constructor accepts, fails for a
  negative odd width: with width \<open>- 1\<close> the centre is \<open>floor (- 0.5) = - 1\<close>, the clip returns
  its lower bound 1, and every particle starts at \<open>x = 0\<close>, which is not below the width.
  (The two other failures of the program, a scale that is not finite and a width above
  \<open>2 ^ 53\<close>, lie outside the model and cannot be exhibited in it.)
\<close>

theorem respawn_spec_counterexample:
  "session (- 1) 8 (9 / 2) 0 (const_rng steady) []
     = Inr (projr (session (- 1) 8 (9 / 2) 0 (const_rng steady) []))
   \<and> particles (projr (session (- 1) 8 (9 / 2) 0 (const_rng steady) [])) \<noteq> []
   \<and> X (hd (particles (projr (session (- 1) 8 (9 / 2) 0 (const_rng steady) [])))) = 0
   \<and> ParamsX (ParticleParams (projr (session (- 1) 8 (9 / 2) 0 (const_rng steady) []))) = - 1
   \<and> \<not> X (hd (particles (projr (session (- 1) 8 (9 / 2) 0 (const_rng steady) []))))
        < real_of_int (ParamsX (ParticleParams
            (projr (session (- 1) 8 (9 / 2) 0 (const_rng steady) []))))"
proof -
  have o: "odd (- 1 :: int)" by simp
  note st = session_start [OF o, where h = 8 and sc = "9 / 2" and ?t0.0 = 0 and g = "const_rng steady"]
  note nc = NewCoffee_odd [OF o, where h = 8 and sc = "9 / 2" and ?t0.0 = 0]
  note fs = Start_first [OF nc, where g = "const_rng steady"]
  have s: "session (- 1) 8 (9 / 2) 0 (const_rng steady) []
      = Inr (projr (session (- 1) 8 (9 / 2) 0 (const_rng steady) []))"
    using o by (rule session_odd)
  have ne: "particles (projr (session (- 1) 8 (9 / 2) 0 (const_rng steady) [])) \<noteq> []"
    using fs(1) by (simp add: st)
  have fl: "\<lfloor>- 1 / (2 :: real)\<rfloor> = - 1" by (simp add: floor_eq_iff)
  have x: "X (hd (particles (projr (session (- 1) 8 (9 / 2) 0 (const_rng steady) [])))) = 0"
    unfolding st fs(2) by (simp add: reset_fields NewParticleSystem_def fl)
  have w: "ParamsX (ParticleParams (projr (session (- 1) 8 (9 / 2) 0 (const_rng steady) []))) = - 1"
    by (rule session_fields(1) [OF s])
  from s ne x w show ?thesis by simp
qed

subsection \<open>One update\<close>

text \<open>
  Claim C5. \<open>Update\<close> stores the clock reading and keeps the size of the pool. Particle
  \<open>i\<close> is first moved by the motion policy with the elapsed time, giving \<open>q\<close>; it then
  becomes the result of the respawn policy on \<open>q\<close> (with the generator as the earlier
  particles of the pool left it) exactly when \<open>q\<close> has \<open>y\<close> at or beyond the height, \<open>x\<close> at or
  beyond the width, or a lifetime of at most 0; otherwise it stays \<open>q\<close>.
\<close>

theorem Update_spec:
  assumes "i < length (particles ps)"
    and "q = nextPosition ps (particles ps ! i) (now - lastTime ps)"
    and "gi = snd (update_each (nextPosition ps) (resetPolicy ps) (ParticleParams ps)
                     (now - lastTime ps) (take i (particles ps)) g)"
  shows "length (particles (fst (Update ps now g))) = length (particles ps)
    \<and> lastTime (fst (Update ps now g)) = now
    \<and> particles (fst (Update ps now g)) ! i =
        (if Y q \<ge> real_of_int (ParamsY (ParticleParams ps))
            \<or> X q \<ge> real_of_int (ParamsX (ParticleParams ps))
            \<or> Lifetime q \<le>s 0
         then fst (resetPolicy ps q (ParticleParams ps) gi)
         else q)"
  using assms
  by (simp add: Update_fields update_each_length update_each_nth update_one_def out_of_play_def)

theorem Update_spec_witness:
  "particles (fst (Update scene 2000 (const_rng steady))) ! 0
     = \<lparr>Lifetime = 6300, Speed = 1, X = 2, Y = 0\<rparr>
   \<and> particles (fst (Update scene 2000 (const_rng steady))) ! 1
     = \<lparr>Lifetime = 2300, Speed = 1 / 2, X = 3, Y = 3 / 2\<rparr>
   \<and> lastTime (fst (Update scene 2000 (const_rng steady))) = 2000"
proof -
  have "particles (fst (Update scene 2000 (const_rng steady))) ! 0
     = \<lparr>Lifetime = 6300, Speed = 1, X = 2, Y = 0\<rparr>"
    using Update_spec [of 0 scene _ 2000 _ "const_rng steady", OF _ refl refl]
    by (simp add: scene_def nextPos_def reset_def const_rng_def steady_def word_sle_eq)
  moreover have "particles (fst (Update scene 2000 (const_rng steady))) ! 1
     = \<lparr>Lifetime = 2300, Speed = 1 / 2, X = 3, Y = 3 / 2\<rparr>
   \<and> lastTime (fst (Update scene 2000 (const_rng steady))) = 2000"
    using Update_spec [of 1 scene _ 2000 _ "const_rng steady", OF _ refl refl]
    by (simp add: scene_def nextPos_def reset_def const_rng_def steady_def word_sle_eq
        update_one_def out_of_play_def)
  ultimately show ?thesis by simp
qed

subsection \<open>The density renderer\<close>

lemma reverse_loop_length: "length (reverse_loop arr i j) = length arr"
  by (induction arr i j rule: reverse_loop.induct) (subst reverse_loop.simps, simp)

lemma reverse_loop_nth:
  "0 \<le> i \<Longrightarrow> j < int (length arr) \<Longrightarrow> k < length arr \<Longrightarrow>
   reverse_loop arr i j ! k =
     (if i \<le> int k \<and> int k \<le> j then arr ! nat (i + j - int k) else arr ! k)"
proof (induction arr i j rule: reverse_loop.induct)
  case (1 arr i j)
  show ?case
  proof (cases "i < j")
    case False
    then have "reverse_loop arr i j = arr" by (subst reverse_loop.simps) simp
    moreover from False have "i \<le> int k \<and> int k \<le> j \<Longrightarrow> nat (i + j - int k) = k" by linarith
    ultimately show ?thesis by auto
  next
    case True
    let ?arr = "arr[nat i := arr ! nat j, nat j := arr ! nat i]"
    have step: "reverse_loop arr i j = reverse_loop ?arr (i + 1) (j - 1)"
      using True by (subst reverse_loop.simps) simp
    have ih: "reverse_loop ?arr (i + 1) (j - 1) ! k =
        (if i + 1 \<le> int k \<and> int k \<le> j - 1 then ?arr ! nat (i + 1 + (j - 1) - int k) else ?arr ! k)"
      using "1.IH" [OF True] "1.prems" by simp
    have ni: "nat i < length arr" and nj: "nat j < length arr" and ne: "nat i \<noteq> nat j"
      using True "1.prems" by linarith+
    consider (lo) "int k < i" | (eqi) "int k = i" | (mid) "i < int k" "int k < j"
      | (eqj) "int k = j" | (hi) "j < int k" by linarith
    then show ?thesis
    proof cases
      case lo
      then have "k \<noteq> nat i" "k \<noteq> nat j" using True "1.prems" by linarith+
      with lo show ?thesis using step ih by simp
    next
      case eqi
      then have k: "k = nat i" by simp
      have "?arr ! k = arr ! nat j" using k ni nj ne by simp
      moreover have "nat (i + j - int k) = nat j" using eqi by simp
      ultimately show ?thesis using step ih eqi True by simp
    next
      case mid
      then have "k \<noteq> nat i" "k \<noteq> nat j" using "1.prems" by linarith+
      moreover have "nat (i + j - int k) \<noteq> nat i" "nat (i + j - int k) \<noteq> nat j"
        using mid "1.prems" by linarith+
      ultimately show ?thesis using step ih mid by simp
    next
      case eqj
      then have k: "k = nat j" by simp
      have "?arr ! k = arr ! nat i" using k ni nj by simp
      moreover have "nat (i + j - int k) = nat i" using eqj by simp
      ultimately show ?thesis using step ih eqj True by simp
    next
      case hi
      then have "k \<noteq> nat i" "k \<noteq> nat j" using True "1.prems" by linarith+
      with hi show ?thesis using step ih by simp
    qed
  qed
qed

lemma reverse_eq_rev: "reverse arr = rev arr"
proof (rule nth_equalityI)
  show "length (reverse arr) = length (rev arr)"
    by (simp add: reverse_def reverse_loop_length)
next
  fix k assume "k < length (reverse arr)"
  then have k: "k < length arr" by (simp add: reverse_def reverse_loop_length)
  then have "nat (int (length arr) - 1 - int k) = length arr - Suc k" by linarith
  with k show "reverse arr ! k = rev arr ! k"
    by (simp add: reverse_def reverse_loop_nth rev_nth)
qed

lemma Join_empty_sep: "Join row [] = concat row"
  by (induction row "[] :: string" rule: Join.induct) simp_all

lemma map_err_Inr:
  "(\<And>x. x \<in> set xs \<Longrightarrow> f x = Inr (g x)) \<Longrightarrow> map_err f xs = Inr (map g xs)"
  by (induction xs) simp_all

lemma map_err_length: "map_err f xs = Inr ys \<Longrightarrow> length ys = length xs"
  by (induction xs arbitrary: ys) (auto split: sum.splits)

lemma map_err_nth: "map_err f xs = Inr ys \<Longrightarrow> k < length xs \<Longrightarrow> f (xs ! k) = Inr (ys ! k)"
proof (induction xs arbitrary: ys k)
  case Nil then show ?case by simp
next
  case (Cons x xs)
  then show ?case by (cases k) (auto split: sum.splits)
qed

lemma render_coffee:
  "map_err (\<lambda>r. map_err (\<lambda>c. coffee_ascii (int r) (int c) counts) [0..<length (counts ! r)])
     [0..<length counts] = Inr (map (map shade) counts)"
proof -
  have row: "map_err (\<lambda>c. coffee_ascii (int r) (int c) counts) [0..<length (counts ! r)]
      = Inr (map shade (counts ! r))" if "r < length counts" for r
  proof -
    have "map_err (\<lambda>c. coffee_ascii (int r) (int c) counts) [0..<length (counts ! r)]
        = Inr (map (\<lambda>c. shade (counts ! r ! c)) [0..<length (counts ! r)])"
      using that by (intro map_err_Inr) (simp add: coffee_ascii_shade)
    also have "map (\<lambda>c. shade (counts ! r ! c)) [0..<length (counts ! r)] = map shade (counts ! r)"
      by (intro nth_equalityI) simp_all
    finally show ?thesis .
  qed
  have "map_err (\<lambda>r. map_err (\<lambda>c. coffee_ascii (int r) (int c) counts) [0..<length (counts ! r)])
     [0..<length counts] = Inr (map (\<lambda>r. map shade (counts ! r)) [0..<length counts])"
    by (intro map_err_Inr) (simp add: row)
  also have "map (\<lambda>r. map shade (counts ! r)) [0..<length counts] = map (map shade) counts"
    by (intro nth_equalityI) simp_all
  finally show ?thesis .
qed

lemma Display_coffee:
  assumes "ascii ps = coffee_ascii"
  shows "Display ps =
    (case count_cells (particles ps)
            (zero_counts (ParamsX (ParticleParams ps)) (ParamsY (ParticleParams ps))) of
       Inl e \<Rightarrow> Inl e
     | Inr counts \<Rightarrow> Inr (Join (map (\<lambda>row. concat (map shade row)) (rev counts)) [CHR 0x0A]))"
  by (simp add: Display_def assms render_coffee reverse_eq_rev Join_empty_sep rev_map comp_def
      split: sum.splits)

lemma is_grid_zero: "is_grid w h (zero_counts w h)"
  by (simp add: is_grid_def zero_counts_def)

lemma is_grid_nth: "is_grid w h counts \<Longrightarrow> r < nat h \<Longrightarrow> length (counts ! r) = nat w"
  by (simp add: is_grid_def)

lemma incr_cell_in:
  assumes "is_grid w h counts" and "0 \<le> row" "row < h" "0 \<le> col" "col < w"
  shows "incr_cell counts row col =
     Inr (counts[nat row := (counts ! nat row)[nat col := counts ! nat row ! nat col + 1]])"
proof -
  have "nat row < nat h" using assms by linarith
  then have "length (counts ! nat row) = nat w" using assms(1) by (rule is_grid_nth [rotated])
  moreover have "length counts = nat h" using assms(1) by (simp add: is_grid_def)
  ultimately show ?thesis using assms(2-) by (simp add: incr_cell_def)
qed

lemma incr_cell_out:
  assumes "is_grid w h counts" and "\<not> (0 \<le> row \<and> row < h \<and> 0 \<le> col \<and> col < w)"
  shows "incr_cell counts row col = Inl IndexOutOfRange"
proof (cases "0 \<le> row \<and> row < h")
  case False
  moreover have "length counts = nat h" using assms(1) by (simp add: is_grid_def)
  ultimately show ?thesis by (auto simp: incr_cell_def)
next
  case True
  then have "nat row < nat h" by linarith
  then have "length (counts ! nat row) = nat w" using assms(1) by (rule is_grid_nth [rotated])
  then show ?thesis using assms(2) True by (auto simp: incr_cell_def)
qed

lemma is_grid_update:
  assumes "is_grid w h counts" and "r < nat h"
  shows "is_grid w h (counts[r := (counts ! r)[c := v]])"
proof -
  have "length (counts ! r) = nat w" using assms by (rule is_grid_nth)
  then show ?thesis
    using assms(1) by (auto simp: is_grid_def dest!: set_update_subset_insert [THEN subsetD])
qed

lemma count_cells_in:
  "is_grid w h counts \<Longrightarrow> \<forall>p \<in> set ps. in_grid w h p \<Longrightarrow>
   \<exists>counts'. count_cells ps counts = Inr counts' \<and> is_grid w h counts'
     \<and> (\<forall>r < nat h. \<forall>c < nat w. counts' ! r ! c = counts ! r ! c + density ps r c)"
proof (induction ps arbitrary: counts)
  case Nil
  then show ?case by (simp add: density_def)
next
  case (Cons p ps)
  let ?r = "nat (cell_row p)" and ?c = "nat (cell_col p)"
  let ?counts = "counts[?r := (counts ! ?r)[?c := counts ! ?r ! ?c + 1]]"
  have p: "0 \<le> cell_row p" "cell_row p < h" "0 \<le> cell_col p" "cell_col p < w"
    using Cons.prems(2) by (simp_all add: in_grid_def)
  have r: "?r < nat h" and c: "?c < nat w" using p by linarith+
  have step: "incr_cell counts (cell_row p) (cell_col p) = Inr ?counts"
    using Cons.prems(1) p by (rule incr_cell_in)
  have grid: "is_grid w h ?counts" using Cons.prems(1) r by (rule is_grid_update)
  from Cons.IH [OF grid] Cons.prems(2)
  obtain counts' where res: "count_cells ps ?counts = Inr counts'" and g': "is_grid w h counts'"
    and cnt: "\<forall>r < nat h. \<forall>c < nat w. counts' ! r ! c = ?counts ! r ! c + density ps r c"
    by auto
  have len: "length counts = nat h" using Cons.prems(1) by (simp add: is_grid_def)
  have "counts' ! r' ! c' = counts ! r' ! c' + density (p # ps) r' c'"
    if r': "r' < nat h" and c': "c' < nat w" for r' c'
  proof -
    have lr: "length (counts ! ?r) = nat w" using Cons.prems(1) r by (rule is_grid_nth)
    have "?counts ! r' ! c' = counts ! r' ! c' + (if ?r = r' \<and> ?c = c' then 1 else 0)"
      using r' c' r c len lr by (auto simp: nth_list_update)
    moreover have "(?r = r' \<and> ?c = c') \<longleftrightarrow> (cell_row p = int r' \<and> cell_col p = int c')"
      using p by auto
    ultimately show ?thesis using cnt r' c' by (simp add: density_def)
  qed
  with res g' step show ?case by simp
qed

lemma count_cells_out:
  "is_grid w h counts \<Longrightarrow> \<exists>p \<in> set ps. \<not> in_grid w h p \<Longrightarrow>
   count_cells ps counts = Inl IndexOutOfRange"
proof (induction ps arbitrary: counts)
  case Nil
  then show ?case by simp
next
  case (Cons p ps)
  show ?case
  proof (cases "in_grid w h p")
    case False
    then have "incr_cell counts (cell_row p) (cell_col p) = Inl IndexOutOfRange"
      using Cons.prems(1) by (intro incr_cell_out) (auto simp: in_grid_def)
    then show ?thesis by simp
  next
    case True
    then have p: "0 \<le> cell_row p" "cell_row p < h" "0 \<le> cell_col p" "cell_col p < w"
      by (simp_all add: in_grid_def)
    let ?r = "nat (cell_row p)" and ?c = "nat (cell_col p)"
    let ?counts = "counts[?r := (counts ! ?r)[?c := counts ! ?r ! ?c + 1]]"
    have r: "?r < nat h" using p by linarith
    have step: "incr_cell counts (cell_row p) (cell_col p) = Inr ?counts"
      using Cons.prems(1) p by (rule incr_cell_in)
    have grid: "is_grid w h ?counts" using Cons.prems(1) r by (rule is_grid_update)
    from True Cons.prems(2) have "\<exists>p \<in> set ps. \<not> in_grid w h p" by auto
    from Cons.IH [OF grid this] step show ?thesis by simp
  qed
qed

lemma count_cells_Inr_iff:
  assumes "is_grid w h counts"
  shows "(\<exists>counts'. count_cells ps counts = Inr counts') \<longleftrightarrow> (\<forall>p \<in> set ps. in_grid w h p)"
proof
  assume ex: "\<exists>counts'. count_cells ps counts = Inr counts'"
  show "\<forall>p \<in> set ps. in_grid w h p"
  proof (rule ccontr)
    assume "\<not> (\<forall>p \<in> set ps. in_grid w h p)"
    then have "\<exists>p \<in> set ps. \<not> in_grid w h p" by simp
    from count_cells_out [OF assms this] ex show False by simp
  qed
next
  assume "\<forall>p \<in> set ps. in_grid w h p"
  from count_cells_in [OF assms this] show "\<exists>counts'. count_cells ps counts = Inr counts'"
    by blast
qed

lemma Display_outside:
  assumes "p \<in> set (particles ps)"
    and "\<not> in_grid (ParamsX (ParticleParams ps)) (ParamsY (ParticleParams ps)) p"
  shows "Display ps = Inl IndexOutOfRange"
proof -
  from assms have "\<exists>p \<in> set (particles ps).
      \<not> in_grid (ParamsX (ParticleParams ps)) (ParamsY (ParticleParams ps)) p" by blast
  from count_cells_out [OF is_grid_zero this] show ?thesis by (simp add: Display_def)
qed

lemma Display_empty_grid:
  assumes "ParamsX (ParticleParams ps) \<le> 0 \<or> ParamsY (ParticleParams ps) \<le> 0"
    and "particles ps \<noteq> []"
  shows "Display ps = Inl IndexOutOfRange"
proof -
  from assms(2) have "hd (particles ps) \<in> set (particles ps)" by simp
  moreover have "\<not> in_grid (ParamsX (ParticleParams ps)) (ParamsY (ParticleParams ps))
      (hd (particles ps))"
    using assms(1) by (auto simp: in_grid_def)
  ultimately show ?thesis by (rule Display_outside)
qed

lemma Display_scene:
  "Display scene = Inr (replicate 5 (CHR 0x20) @ [CHR 0x0A]
      @ [CHR 0x20, CHR 0x20, CHR 0x20, CHR 0xE2, CHR 0x96, CHR 0x91, CHR 0x20] @ [CHR 0x0A]
      @ [CHR 0x20, CHR 0x20, CHR 0xE2, CHR 0x96, CHR 0x91, CHR 0x20, CHR 0x20])"
  apply (simp add: Display_coffee scene_def zero_counts_def numeral_eq_Suc incr_cell_def cell_row_def cell_col_def go_round_def)
  apply (simp add: shade_eq glyph_blank_def glyph_light_def)
  done

text \<open>
  Claim C6. Whenever \<open>Display\<close> returns a text, that text is the rendered rows of the
  density grid joined by newlines in reverse order: the grid has \<open>height\<close> rows, cell
  \<open>(r, c)\<close> counts the particles with \<open>floor y = r\<close> and \<open>round x = c\<close>, line \<open>i\<close> of the text is
  the rendering of grid row \<open>height - 1 - i\<close>; so row 0, where particles spawn, is the last
  line and row \<open>height - 1\<close> the first.
\<close>

theorem Display_rows_reversed:
  fixes ps :: ParticleSystem
  defines "w \<equiv> ParamsX (ParticleParams ps)" and "h \<equiv> ParamsY (ParticleParams ps)"
  assumes "Display ps = Inr str"
  shows "\<exists>counts out.
      count_cells (particles ps) (zero_counts w h) = Inr counts
    \<and> length counts = nat h \<and> length out = nat h
    \<and> (\<forall>r < nat h. \<forall>c < nat w. counts ! r ! c = density (particles ps) r c)
    \<and> (\<forall>r < nat h. map_err (\<lambda>c. ascii ps (int r) (int c) counts) [0..<nat w] = Inr (out ! r))
    \<and> str = Join (map concat (rev out)) [CHR 0x0A]
    \<and> (\<forall>i < nat h. map concat (rev out) ! i = concat (out ! (nat h - 1 - i)))
    \<and> (0 < h \<longrightarrow> last (map concat (rev out)) = concat (out ! 0)
                 \<and> hd (map concat (rev out)) = concat (out ! (nat h - 1)))"
proof -
  from assms(3) obtain counts out
    where cc: "count_cells (particles ps) (zero_counts w h) = Inr counts"
      and me: "map_err (\<lambda>r. map_err (\<lambda>c. ascii ps (int r) (int c) counts)
                               [0..<length (counts ! r)]) [0..<length counts] = Inr out"
      and str: "str = Join (map (\<lambda>row. Join row []) (reverse out)) [CHR 0x0A]"
    by (auto simp: Display_def w_def h_def split: sum.splits)
  have "\<forall>p \<in> set (particles ps). in_grid w h p"
    using count_cells_Inr_iff [OF is_grid_zero [of w h], where ps = "particles ps"] cc by blast
  from count_cells_in [OF is_grid_zero this] cc
  have grid: "is_grid w h counts"
    and dens: "\<forall>r < nat h. \<forall>c < nat w. counts ! r ! c = density (particles ps) r c"
    by (auto simp: zero_counts_def)
  have lc: "length counts = nat h" using grid by (simp add: is_grid_def)
  have lo: "length out = nat h" using map_err_length [OF me] lc by simp
  have rows: "map_err (\<lambda>c. ascii ps (int r) (int c) counts) [0..<nat w] = Inr (out ! r)"
    if "r < nat h" for r
    using map_err_nth [OF me, of r] that lc is_grid_nth [OF grid that] by simp
  have str': "str = Join (map concat (rev out)) [CHR 0x0A]"
    by (simp add: str reverse_eq_rev Join_empty_sep [abs_def])
  have nth: "map concat (rev out) ! i = concat (out ! (nat h - 1 - i))" if "i < nat h" for i
    using that lo by (simp add: rev_nth)
  have ends: "last (map concat (rev out)) = concat (out ! 0)
      \<and> hd (map concat (rev out)) = concat (out ! (nat h - 1))" if "0 < h"
  proof -
    from that lo have ne: "out \<noteq> []" by auto
    then have "last (map concat (rev out)) = concat (hd out)"
      and "hd (map concat (rev out)) = concat (last out)"
      by (simp_all add: last_map hd_map last_rev hd_rev)
    then show ?thesis using ne lo by (simp add: hd_conv_nth last_conv_nth)
  qed
  from cc lc lo dens rows str' nth ends show ?thesis by blast
qed

theorem Display_rows_reversed_witness:
  "\<exists>counts out. count_cells (particles scene) (zero_counts 5 3) = Inr counts
     \<and> length out = 3
     \<and> Display scene = Inr (Join (map concat (rev out)) [CHR 0x0A])
     \<and> last (map concat (rev out)) = concat (out ! 0)
     \<and> hd (map concat (rev out)) = concat (out ! 2)"
proof -
  have w: "ParamsX (ParticleParams scene) = 5" and h: "ParamsY (ParticleParams scene) = 3"
    by (simp_all add: scene_def)
  from Display_rows_reversed [OF Display_scene] obtain counts out
    where "count_cells (particles scene) (zero_counts 5 3) = Inr counts"
      and "length out = nat 3"
      and "replicate 5 (CHR 0x20) @ [CHR 0x0A]
      @ [CHR 0x20, CHR 0x20, CHR 0x20, CHR 0xE2, CHR 0x96, CHR 0x91, CHR 0x20] @ [CHR 0x0A]
      @ [CHR 0x20, CHR 0x20, CHR 0xE2, CHR 0x96, CHR 0x91, CHR 0x20, CHR 0x20]
        = Join (map concat (rev out)) [CHR 0x0A]"
      and "0 < (3 :: int) \<longrightarrow> last (map concat (rev out)) = concat (out ! 0)
        \<and> hd (map concat (rev out)) = concat (out ! (nat 3 - 1))"
    unfolding w h by blast
  then show ?thesis
    by (intro exI [of _ counts] exI [of _ out]) (simp add: Display_scene)
qed

subsection \<open>Reachable states\<close>

lemma reset_in_flight:
  assumes "valid_rng g" and "0 \<le> MaxSpeed params" and "odd (ParamsX params)"
    and "0 < ParamsX params" and "0 < ParamsY params"
  shows "in_flight params (fst (reset p params g))"
proof -
  have "0 \<le> u_speed (g 0)" using assms(1) by (simp add: valid_rng_def valid_draws_def)
  then have "0 \<le> Speed (fst (reset p params g))" using assms(2) by (simp add: reset_fields)
  moreover have "Y (fst (reset p params g)) = 0" by (simp add: reset_fields)
  ultimately show ?thesis
    using reset_x [OF assms(3,4), of p g] assms(5) by (simp add: in_flight_def)
qed

lemma nextPos_in_flight:
  assumes "in_flight params p" and "0 \<le>s d" and "\<not> out_of_play params (nextPos p d)"
  shows "in_flight params (nextPos p d)"
proof -
  have d: "0 \<le> real_of_int (sint d)" using assms(2) by (simp add: word_sle_eq del: of_int_sint)
  have sp: "0 \<le> Speed p" and y: "0 \<le> Y p" and x: "0 \<le> X p" "X p \<le> real_of_int (ParamsX params) - 1"
    using assms(1) by (simp_all add: in_flight_def)
  have "0 \<le> Speed p * (real_of_int (sint d) / 2000)" using sp d by (intro mult_nonneg_nonneg) simp_all
  then have "0 \<le> Y (nextPos p d)" using y by (simp add: nextPos_def Let_def del: of_int_sint)
  moreover have "Y (nextPos p d) < real_of_int (ParamsY params)"
    using assms(3) by (simp add: out_of_play_def)
  moreover have "X (nextPos p d) = X p" "Speed (nextPos p d) = Speed p"
    by (simp_all add: nextPos_def Let_def)
  ultimately show ?thesis using sp x by (simp add: in_flight_def)
qed

lemma update_one_in_flight:
  assumes "0 \<le> MaxSpeed params" and "odd (ParamsX params)"
    and "0 < ParamsX params" and "0 < ParamsY params" and "0 \<le>s d"
    and "in_flight params p" and "valid_rng g"
  shows "in_flight params (fst (update_one nextPos reset params d p g))
    \<and> valid_rng (snd (update_one nextPos reset params d p g))"
proof (cases "out_of_play params (nextPos p d)")
  case True
  then show ?thesis
    using reset_in_flight [OF assms(7,1-4)] valid_rng_reset [OF assms(7)]
    by (simp add: update_one_def)
next
  case False
  then show ?thesis
    using nextPos_in_flight [OF assms(6,5) False] assms(7) by (simp add: update_one_def)
qed

lemma update_each_all:
  assumes "\<And>p g. P p \<Longrightarrow> valid_rng g \<Longrightarrow>
     P (fst (update_one np rs params d p g)) \<and> valid_rng (snd (update_one np rs params d p g))"
  shows "valid_rng g \<Longrightarrow> \<forall>p \<in> set ps. P p \<Longrightarrow>
    (\<forall>q \<in> set (fst (update_each np rs params d ps g)). P q)
    \<and> valid_rng (snd (update_each np rs params d ps g))
    \<and> length (fst (update_each np rs params d ps g)) = length ps"
proof (induction ps arbitrary: g)
  case Nil
  then show ?case by simp
next
  case (Cons p ps)
  have p: "P p" using Cons.prems(2) by simp
  note one = assms [OF p Cons.prems(1)]
  from Cons.IH [of "snd (update_one np rs params d p g)"] one Cons.prems(2)
  show ?case by (simp add: split_beta)
qed

lemma in_flight_in_grid:
  assumes "in_flight params p"
  shows "in_grid (ParamsX params) (ParamsY params) p"
    and "0 \<le> X p" and "X p < real_of_int (ParamsX params)"
proof -
  have y: "0 \<le> Y p" "Y p < real_of_int (ParamsY params)"
    and x: "0 \<le> X p" "X p \<le> real_of_int (ParamsX params) - 1"
    using assms by (simp_all add: in_flight_def)
  have "0 \<le> \<lfloor>Y p\<rfloor>" using y(1) by simp
  moreover have "\<lfloor>Y p\<rfloor> < ParamsY params" using y(2) by (simp add: floor_less_iff)
  moreover have "go_round (X p) = \<lfloor>X p + 1 / 2\<rfloor>" using x(1) by (simp add: go_round_def)
  moreover have "0 \<le> \<lfloor>X p + 1 / 2\<rfloor>" using x(1) by simp
  moreover have "X p + 1 / 2 < real_of_int (ParamsX params)" using x(2) by simp
  then have "\<lfloor>X p + 1 / 2\<rfloor> < ParamsX params" by (simp add: floor_less_iff)
  ultimately show "in_grid (ParamsX params) (ParamsY params) p"
    by (simp add: in_grid_def cell_row_def cell_col_def)
  show "0 \<le> X p" by (rule x(1))
  show "X p < real_of_int (ParamsX params)" using x(2) by simp
qed

lemma Start_inv:
  assumes "NewCoffee w h sc t0 = Inr c0" and "0 < w" and "0 < h" and "valid_rng g"
  shows "steam_inv w h sc (fst (Start c0 g))" and "valid_rng (snd (Start c0 g))"
    and "lastTime (fst (Start c0 g)) = t0"
proof -
  let ?prm = "\<lparr>MaxLife = 7000, MaxSpeed = 3 / 2, ParticleCount = 60,
               ParamsX = w, ParamsY = h, Scale = sc\<rparr>"
  note c0 = NewCoffee_Inr [OF assms(1)]
  have f: "ParticleParams c0 = ?prm" "nextPosition c0 = nextPos" "ascii c0 = coffee_ascii"
    "resetPolicy c0 = reset" "length (particles c0) = 60" "lastTime c0 = t0"
    by (simp_all add: c0(2) NewParticleSystem_def)
  have "in_flight ?prm (fst (reset p ?prm g'))" if "valid_rng g'" for p g'
    using that c0(1) assms(2,3) by (intro reset_in_flight) simp_all
  from reset_each_reset [of "in_flight ?prm" ?prm g "particles c0", OF this assms(4)]
  show "steam_inv w h sc (fst (Start c0 g))" and "valid_rng (snd (Start c0 g))"
    and "lastTime (fst (Start c0 g)) = t0"
    by (simp_all add: steam_inv_def Start_fields f)
qed

lemma Update_inv:
  assumes "steam_inv w h sc c" and "odd w" and "0 < w" and "0 < h"
    and "valid_rng g" and "0 \<le>s now - lastTime c"
  shows "steam_inv w h sc (fst (Update c now g))" and "valid_rng (snd (Update c now g))"
proof -
  let ?prm = "\<lparr>MaxLife = 7000, MaxSpeed = 3 / 2, ParticleCount = 60,
               ParamsX = w, ParamsY = h, Scale = sc\<rparr>"
  let ?d = "now - lastTime c"
  have f: "ParticleParams c = ?prm" "nextPosition c = nextPos" "ascii c = coffee_ascii"
    "resetPolicy c = reset" "length (particles c) = 60"
    and fl: "\<forall>p \<in> set (particles c). in_flight ?prm p"
    using assms(1) by (auto simp: steam_inv_def)
  have one: "in_flight ?prm (fst (update_one nextPos reset ?prm ?d p g'))
      \<and> valid_rng (snd (update_one nextPos reset ?prm ?d p g'))"
    if "in_flight ?prm p" and "valid_rng g'" for p g'
    using that assms(2-4,6) by (intro update_one_in_flight) simp_all
  from update_each_all [of "in_flight ?prm" nextPos reset ?prm ?d g "particles c", OF one assms(5) fl]
  show "steam_inv w h sc (fst (Update c now g))" and "valid_rng (snd (Update c now g))"
    by (simp_all add: steam_inv_def Update_fields f)
qed

lemma updates_inv:
  "steam_inv w h sc c \<Longrightarrow> odd w \<Longrightarrow> 0 < w \<Longrightarrow> 0 < h \<Longrightarrow> valid_rng g \<Longrightarrow>
   forward (lastTime c) ticks \<Longrightarrow> steam_inv w h sc (fst (updates c g ticks))"
proof (induction ticks arbitrary: c g)
  case Nil
  then show ?case by simp
next
  case (Cons now ticks)
  have d: "0 \<le>s now - lastTime c" and fw: "forward now ticks" using Cons.prems(6) by simp_all
  note u = Update_inv [OF Cons.prems(1-5) d]
  have "forward (lastTime (fst (Update c now g))) ticks" using fw by (simp add: Update_fields)
  from Cons.IH [OF u(1) Cons.prems(2-4) u(2) this] show ?case by (simp add: split_beta)
qed

lemma session_inv:
  assumes "session w h sc t0 g ticks = Inr c" and "0 < w" and "0 < h"
    and "valid_rng g" and "forward t0 ticks"
  shows "steam_inv w h sc c"
proof -
  from assms(1) obtain c0 where c0: "NewCoffee w h sc t0 = Inr c0"
    and c: "c = fst (updates (fst (Start c0 g)) (snd (Start c0 g)) ticks)"
    by (rule session_Inr)
  note s = Start_inv [OF c0 assms(2-4)]
  have "forward (lastTime (fst (Start c0 g))) ticks" using assms(5) by (simp add: s(3))
  from updates_inv [OF s(1) NewCoffee_Inr(1) [OF c0] assms(2,3) s(2) this] show ?thesis
    by (simp add: c)
qed

lemma steam_inv_in_grid:
  assumes "steam_inv w h sc c" and "p \<in> set (particles c)"
  shows "in_grid w h p" and "0 \<le> X p" and "X p < real_of_int w"
proof -
  have prm: "ParamsX (ParticleParams c) = w" "ParamsY (ParticleParams c) = h"
    and fl: "in_flight (ParticleParams c) p"
    using assms by (auto simp: steam_inv_def)
  from in_flight_in_grid [OF fl] prm
  show "in_grid w h p" and "0 \<le> X p" and "X p < real_of_int w" by simp_all
qed

lemma steam_Display:
  assumes "steam_inv w h sc c"
  shows "\<exists>counts. count_cells (particles c) (zero_counts w h) = Inr counts \<and> is_grid w h counts
    \<and> Display c = Inr (Join (map (\<lambda>row. concat (map shade row)) (rev counts)) [CHR 0x0A])"
proof -
  have asc: "ascii c = coffee_ascii" and prm: "ParamsX (ParticleParams c) = w"
    "ParamsY (ParticleParams c) = h"
    using assms by (simp_all add: steam_inv_def)
  have "\<forall>p \<in> set (particles c). in_grid w h p" using steam_inv_in_grid(1) [OF assms] by blast
  from count_cells_in [OF is_grid_zero this]
  obtain counts where cc: "count_cells (particles c) (zero_counts w h) = Inr counts"
    and grid: "is_grid w h counts" by blast
  have "Display c = Inr (Join (map (\<lambda>row. concat (map shade row)) (rev counts)) [CHR 0x0A])"
    by (simp add: Display_coffee [OF asc] prm cc)
  with cc grid show ?thesis by blast
qed

lemma backward_first:
  "particles (projr (session 5 3 0 5000 (const_rng steady) [4000])) ! 0
     = \<lparr>Lifetime = 7300, Speed = 1, X = 2, Y = - 1 / 2\<rparr>"
proof -
  have o: "odd (5 :: int)" by simp
  show ?thesis
    unfolding session_one_update [OF o]
    by (simp add: update_one_def out_of_play_def nextPos_def reset_fields steady_def
        const_rng_def word_sle_eq Let_def)
qed

text \<open>
  Claim C8, amended. Let the effect be built with a positive width below \<open>2 ^ 53\<close>, a
  positive height and a finite scale (a real number: neither NaN nor infinite), started,
  and updated any number of times by a clock that does not run backwards, the uniform
  draws lying in the half-open unit interval. Then every particle has
  \<open>0 \<le> floor y < height\<close> and \<open>0 \<le> round x < width\<close>, and \<open>0 \<le> x < width\<close>, so that neither the
  counting loop nor \<open>Display\<close> as a whole indexes out of range.
\<close>

theorem cells_in_range:
  fixes sc :: real
  assumes "session w h sc t0 g ticks = Inr c" and "0 < w" and "0 < h"
    and "valid_rng g" and "forward t0 ticks" and "w < 2 ^ 53"
  shows "(\<forall>p \<in> set (particles c).
            0 \<le> cell_row p \<and> cell_row p < h \<and> 0 \<le> cell_col p \<and> cell_col p < w
            \<and> 0 \<le> X p \<and> X p < real_of_int w)
    \<and> (\<exists>counts. count_cells (particles c) (zero_counts w h) = Inr counts)
    \<and> (\<exists>str. Display c = Inr str)"
proof -
  note inv = session_inv [OF assms(1-5)]
  have a: "\<forall>p \<in> set (particles c). in_grid w h p" using steam_inv_in_grid(1) [OF inv] by blast
  have b: "\<forall>p \<in> set (particles c). 0 \<le> X p \<and> X p < real_of_int w"
    using steam_inv_in_grid(2,3) [OF inv] by blast
  from steam_Display [OF inv]
  have c: "(\<exists>counts. count_cells (particles c) (zero_counts w h) = Inr counts)
      \<and> (\<exists>str. Display c = Inr str)" by blast
  with a b show ?thesis by (simp add: in_grid_def)
qed

theorem cells_in_range_witness:
  "list_all (in_grid 5 3) (particles (projr (session 5 3 0 0 (const_rng steady) [2000, 2100])))
   \<and> (\<exists>str. Display (projr (session 5 3 0 0 (const_rng steady) [2000, 2100])) = Inr str)"
proof -
  have s: "session 5 3 0 0 (const_rng steady) [2000, 2100]
      = Inr (projr (session 5 3 0 0 (const_rng steady) [2000, 2100]))"
    by (rule session_odd) simp
  have f: "forward 0 [2000, 2100]" by (simp add: word_sle_eq)
  from cells_in_range [OF s _ _ valid_steady f] show ?thesis
    by (simp add: list_all_iff in_grid_def)
qed

text \<open>
  The claim as first stated, for every reachable state, fails in three ways. The
  constructor accepts a height of 0: right after \<open>Start\<close> the first particle is in row 0,
  which is not below the height, and the counting loop of \<open>Display\<close> indexes out of range.
  It accepts the width \<open>- 1\<close>: the first particle is in column 0, which is not below the
  width. And when the clock is set back between construction (at 5000 ms) and the first
  \<open>Update\<close> (at 4000 ms), the delta is negative, the lifetime grows, \<open>y\<close> becomes \<open>- 0.5\<close> and
  the row is \<open>- 1\<close>. (The failures of the program for a scale that is not finite and for a
  width above \<open>2 ^ 53\<close> lie outside the model and cannot be exhibited in it.)
\<close>

theorem cells_in_range_counterexample:
  "session 71 0 (9 / 2) 0 (const_rng steady) []
     = Inr (projr (session 71 0 (9 / 2) 0 (const_rng steady) []))
   \<and> particles (projr (session 71 0 (9 / 2) 0 (const_rng steady) [])) \<noteq> []
   \<and> cell_row (hd (particles (projr (session 71 0 (9 / 2) 0 (const_rng steady) [])))) = 0
   \<and> ParamsY (ParticleParams (projr (session 71 0 (9 / 2) 0 (const_rng steady) []))) = 0
   \<and> count_cells (particles (projr (session 71 0 (9 / 2) 0 (const_rng steady) [])))
        (zero_counts 71 0) = Inl IndexOutOfRange
   \<and> session (- 1) 8 (9 / 2) 0 (const_rng steady) []
     = Inr (projr (session (- 1) 8 (9 / 2) 0 (const_rng steady) []))
   \<and> particles (projr (session (- 1) 8 (9 / 2) 0 (const_rng steady) [])) \<noteq> []
   \<and> cell_col (hd (particles (projr (session (- 1) 8 (9 / 2) 0 (const_rng steady) [])))) = 0
   \<and> ParamsX (ParticleParams (projr (session (- 1) 8 (9 / 2) 0 (const_rng steady) []))) = - 1
   \<and> session 5 3 0 5000 (const_rng steady) [4000]
     = Inr (projr (session 5 3 0 5000 (const_rng steady) [4000]))
   \<and> length (particles (projr (session 5 3 0 5000 (const_rng steady) [4000]))) = 60
   \<and> cell_row (particles (projr (session 5 3 0 5000 (const_rng steady) [4000])) ! 0) = - 1"
proof -
  have o: "odd (71 :: int)" by simp
  note st = session_start [OF o, where h = 0 and sc = "9 / 2" and ?t0.0 = 0 and g = "const_rng steady"]
  note nc = NewCoffee_odd [OF o, where h = 0 and sc = "9 / 2" and ?t0.0 = 0]
  note fs = Start_first [OF nc, where g = "const_rng steady"]
  have s: "session 71 0 (9 / 2) 0 (const_rng steady) []
      = Inr (projr (session 71 0 (9 / 2) 0 (const_rng steady) []))"
    using o by (rule session_odd)
  have ne: "particles (projr (session 71 0 (9 / 2) 0 (const_rng steady) [])) \<noteq> []"
    using fs(1) by (simp add: st)
  have row: "cell_row (hd (particles (projr (session 71 0 (9 / 2) 0 (const_rng steady) [])))) = 0"
    by (simp add: st fs(2) cell_row_def reset_fields)
  have h: "ParamsY (ParticleParams (projr (session 71 0 (9 / 2) 0 (const_rng steady) []))) = 0"
    by (rule session_fields(2) [OF s])
  from ne obtain p qs
    where "particles (projr (session 71 0 (9 / 2) 0 (const_rng steady) [])) = p # qs"
    by (cases "particles (projr (session 71 0 (9 / 2) 0 (const_rng steady) []))") auto
  then have cc: "count_cells (particles (projr (session 71 0 (9 / 2) 0 (const_rng steady) [])))
        (zero_counts 71 0) = Inl IndexOutOfRange"
    by (simp add: zero_counts_def incr_cell_def)
  have o': "odd (- 1 :: int)" by simp
  note st' = session_start [OF o', where h = 8 and sc = "9 / 2" and ?t0.0 = 0 and g = "const_rng steady"]
  note nc' = NewCoffee_odd [OF o', where h = 8 and sc = "9 / 2" and ?t0.0 = 0]
  note fs' = Start_first [OF nc', where g = "const_rng steady"]
  have s': "session (- 1) 8 (9 / 2) 0 (const_rng steady) []
      = Inr (projr (session (- 1) 8 (9 / 2) 0 (const_rng steady) []))"
    using o' by (rule session_odd)
  have ne': "particles (projr (session (- 1) 8 (9 / 2) 0 (const_rng steady) [])) \<noteq> []"
    using fs'(1) by (simp add: st')
  have fl: "\<lfloor>- 1 / (2 :: real)\<rfloor> = - 1" by (simp add: floor_eq_iff)
  have col: "cell_col (hd (particles (projr (session (- 1) 8 (9 / 2) 0 (const_rng steady) [])))) = 0"
    unfolding st' fs'(2)
    by (simp add: reset_fields NewParticleSystem_def fl cell_col_def go_round_def)
  have w: "ParamsX (ParticleParams (projr (session (- 1) 8 (9 / 2) 0 (const_rng steady) []))) = - 1"
    by (rule session_fields(1) [OF s'])
  have c: "session 5 3 0 5000 (const_rng steady) [4000]
      = Inr (projr (session 5 3 0 5000 (const_rng steady) [4000]))"
    by (rule session_odd) simp
  have len: "length (particles (projr (session 5 3 0 5000 (const_rng steady) [4000]))) = 60"
    by (rule session_fields(3) [OF c])
  have neg: "cell_row (particles (projr (session 5 3 0 5000 (const_rng steady) [4000])) ! 0) = - 1"
    by (simp add: backward_first cell_row_def)
  from s ne row h cc s' ne' col w c len neg show ?thesis by simp
qed

text \<open>
  Claim C1, amended. Let the effect be built with a positive width below \<open>2 ^ 53\<close>, a
  positive height and a finite scale (a real number: neither NaN nor infinite), started,
  and updated any number of times by a clock that does not run backwards, the uniform
  draws lying in the half-open unit interval. Then \<open>Display\<close> returns a text made of
  exactly \<open>height\<close> lines joined by the newline byte; every line is the concatenation of
  exactly \<open>width\<close> glyphs, each one of the five of the steam effect, and holds no newline.
\<close>

theorem Display_shape:
  fixes sc :: real
  assumes "session w h sc t0 g ticks = Inr c" and "0 < w" and "0 < h"
    and "valid_rng g" and "forward t0 ticks" and "w < 2 ^ 53"
  shows "\<exists>lines. Display c = Inr (Join lines [CHR 0x0A]) \<and> length lines = nat h
    \<and> (\<forall>line \<in> set lines.
          (\<exists>gs. line = concat gs \<and> length gs = nat w
             \<and> set gs \<subseteq> {glyph_blank, glyph_light, glyph_medium, glyph_dark, glyph_solid})
          \<and> CHR 0x0A \<notin> set line)"
proof -
  from steam_Display [OF session_inv [OF assms(1-5)]]
  obtain counts where grid: "is_grid w h counts"
    and disp: "Display c = Inr (Join (map (\<lambda>row. concat (map shade row)) (rev counts)) [CHR 0x0A])"
    by blast
  let ?lines = "map (\<lambda>row. concat (map shade row)) (rev counts)"
  have "length ?lines = nat h" using grid by (simp add: is_grid_def)
  moreover have "(\<exists>gs. line = concat gs \<and> length gs = nat w
             \<and> set gs \<subseteq> {glyph_blank, glyph_light, glyph_medium, glyph_dark, glyph_solid})
          \<and> CHR 0x0A \<notin> set line" if "line \<in> set ?lines" for line
  proof -
    from that obtain row where row: "row \<in> set counts" and line: "line = concat (map shade row)"
      by auto
    have "length (map shade row) = nat w" using grid row by (simp add: is_grid_def)
    moreover have "set (map shade row) \<subseteq> {glyph_blank, glyph_light, glyph_medium, glyph_dark, glyph_solid}"
      using shade_glyph by auto
    moreover have "CHR 0x0A \<notin> set line" using shade_no_newline by (auto simp: line)
    ultimately show ?thesis using line by blast
  qed
  ultimately show ?thesis using disp by blast
qed

theorem Display_shape_witness:
  "\<exists>lines. Display (projr (session 5 3 0 0 (const_rng steady) [2000])) = Inr (Join lines [CHR 0x0A])
     \<and> length lines = 3"
proof -
  have s: "session 5 3 0 0 (const_rng steady) [2000]
      = Inr (projr (session 5 3 0 0 (const_rng steady) [2000]))"
    by (rule session_odd) simp
  have f: "forward 0 [2000]" by (simp add: word_sle_eq)
  from Display_shape [OF s _ _ valid_steady f] show ?thesis by auto
qed

text \<open>
  The claim as first stated, for every reachable state, fails in three ways: after
  \<open>Start\<close> and one \<open>Update\<close> the call of \<open>Display\<close> ends in an index error, and returns no
  text, for a height of 0, for the width \<open>- 1\<close> (both accepted by the constructor), and for
  a five by three grid when the clock is set back from 5000 ms to 4000 ms before the
  update. (The failures of the program for a scale that is not finite and for a width
  above \<open>2 ^ 53\<close> lie outside the model and cannot be exhibited in it.)
\<close>

theorem Display_shape_counterexample:
  "session 71 0 (9 / 2) 0 (const_rng steady) [100]
     = Inr (projr (session 71 0 (9 / 2) 0 (const_rng steady) [100]))
   \<and> Display (projr (session 71 0 (9 / 2) 0 (const_rng steady) [100])) = Inl IndexOutOfRange
   \<and> session (- 1) 8 (9 / 2) 0 (const_rng steady) [100]
     = Inr (projr (session (- 1) 8 (9 / 2) 0 (const_rng steady) [100]))
   \<and> Display (projr (session (- 1) 8 (9 / 2) 0 (const_rng steady) [100])) = Inl IndexOutOfRange
   \<and> session 5 3 0 5000 (const_rng steady) [4000]
     = Inr (projr (session 5 3 0 5000 (const_rng steady) [4000]))
   \<and> Display (projr (session 5 3 0 5000 (const_rng steady) [4000])) = Inl IndexOutOfRange"
proof -
  have a: "session 71 0 (9 / 2) 0 (const_rng steady) [100]
      = Inr (projr (session 71 0 (9 / 2) 0 (const_rng steady) [100]))"
    by (rule session_odd) simp
  note fa = session_fields [OF a]
  have "particles (projr (session 71 0 (9 / 2) 0 (const_rng steady) [100])) \<noteq> []"
    using fa(3) by auto
  with fa(2) have a': "Display (projr (session 71 0 (9 / 2) 0 (const_rng steady) [100]))
      = Inl IndexOutOfRange"
    by (intro Display_empty_grid) simp_all
  have b: "session (- 1) 8 (9 / 2) 0 (const_rng steady) [100]
      = Inr (projr (session (- 1) 8 (9 / 2) 0 (const_rng steady) [100]))"
    by (rule session_odd) simp
  note fb = session_fields [OF b]
  have "particles (projr (session (- 1) 8 (9 / 2) 0 (const_rng steady) [100])) \<noteq> []"
    using fb(3) by auto
  with fb(1) have b': "Display (projr (session (- 1) 8 (9 / 2) 0 (const_rng steady) [100]))
      = Inl IndexOutOfRange"
    by (intro Display_empty_grid) simp_all
  have c: "session 5 3 0 5000 (const_rng steady) [4000]
      = Inr (projr (session 5 3 0 5000 (const_rng steady) [4000]))"
    by (rule session_odd) simp
  note fc = session_fields [OF c]
  have "particles (projr (session 5 3 0 5000 (const_rng steady) [4000])) ! 0
      \<in> set (particles (projr (session 5 3 0 5000 (const_rng steady) [4000])))"
    using fc(3) by (intro nth_mem) simp
  moreover have "\<not> in_grid 5 3 (particles (projr (session 5 3 0 5000 (const_rng steady) [4000])) ! 0)"
    by (simp add: backward_first in_grid_def cell_row_def)
  ultimately have c': "Display (projr (session 5 3 0 5000 (const_rng steady) [4000]))
      = Inl IndexOutOfRange"
    using fc(1,2) by (intro Display_outside) simp_all
  from a a' b b' c c' show ?thesis by simp
qed

subsection \<open>The neighbour count\<close>

lemma countParticles_loop_last:
  assumes "is_grid w h counts"
  shows "countParticles_loop ds row col counts acc =
    Inr (case rev (filter (in_bounds w h) (map (\<lambda>(dr, dc). (row + dr, col + dc)) ds)) of
           [] \<Rightarrow> acc
         | (r, c) # _ \<Rightarrow> counts ! nat r ! nat c)"
proof (induction ds arbitrary: acc)
  case Nil
  then show ?case by simp
next
  case (Cons d ds)
  obtain dr dc where d: "d = (dr, dc)" by (cases d)
  let ?r = "row + dr" and ?c = "col + dc"
  let ?rest = "filter (in_bounds w h) (map (\<lambda>(dr, dc). (row + dr, col + dc)) ds)"
  have len: "length counts = nat h" using assms by (simp add: is_grid_def)
  show ?case
  proof (cases "in_bounds w h (?r, ?c)")
    case True
    then have b: "0 \<le> ?r" "?r < h" "0 \<le> ?c" "?c < w" by (simp_all add: in_bounds_def)
    then have "0 < nat h" and "nat ?r < nat h" by linarith+
    then have l0: "length (counts ! 0) = nat w" and lr: "length (counts ! nat ?r) = nat w"
      using assms by (simp_all add: is_grid_nth)
    have "countParticles_loop (d # ds) row col counts acc =
        countParticles_loop ds row col counts (counts ! nat ?r ! nat ?c)"
      using b len l0 lr by (simp add: d Let_def)
    also note Cons.IH
    finally show ?thesis using True by (cases "rev ?rest") (simp_all add: d)
  next
    case False
    have "?r < 0 \<or> ?r \<ge> int (length counts) \<or> ?c < 0 \<or> ?c \<ge> int (length (counts ! 0))"
    proof (cases "0 \<le> ?r \<and> ?r < h")
      case False
      then show ?thesis using len by auto
    next
      case True
      then have "0 < nat h" by linarith
      then have "length (counts ! 0) = nat w" using assms by (simp add: is_grid_nth)
      with True \<open>\<not> in_bounds w h (?r, ?c)\<close> show ?thesis by (auto simp: in_bounds_def)
    qed
    then have "countParticles_loop (d # ds) row col counts acc =
        countParticles_loop ds row col counts acc"
      by (auto simp: d Let_def)
    also note Cons.IH
    finally show ?thesis using False by (simp add: d)
  qed
qed

lemma countParticles_grid:
  assumes "is_grid w h counts"
  shows "countParticles row col counts =
    Inr (if neighbours w h row col = [] then 0
         else counts ! nat (fst (last (neighbours w h row col)))
                     ! nat (snd (last (neighbours w h row col))))"
proof -
  have "countParticles row col counts =
    Inr (case rev (neighbours w h row col) of [] \<Rightarrow> 0 | (r, c) # _ \<Rightarrow> counts ! nat r ! nat c)"
    unfolding countParticles_def neighbours_def by (rule countParticles_loop_last [OF assms])
  also have "(case rev (neighbours w h row col) of [] \<Rightarrow> 0 | (r, c) # _ \<Rightarrow> counts ! nat r ! nat c)
     = (if neighbours w h row col = [] then 0
         else counts ! nat (fst (last (neighbours w h row col)))
                     ! nat (snd (last (neighbours w h row col))))"
    by (cases "neighbours w h row col" rule: rev_cases) (simp_all add: split_beta)
  finally show ?thesis .
qed

lemma normalize_cell_grid:
  assumes "is_grid w h counts" and "in_bounds w h (row, col)"
    and "countParticles row col counts = Inr v"
  shows "normalize_cell row col counts =
    Inr (if 4 < v then counts[nat row := (counts ! nat row)[nat col := 0]] else counts)"
proof -
  have b: "0 \<le> row" "row < h" "0 \<le> col" "col < w" using assms(2) by (simp_all add: in_bounds_def)
  then have "nat row < nat h" by linarith
  then have "length (counts ! nat row) = nat w" using assms(1) by (simp add: is_grid_nth)
  moreover have "length counts = nat h" using assms(1) by (simp add: is_grid_def)
  ultimately show ?thesis using b assms(3) by (simp add: normalize_cell_def)
qed

text \<open>
  Claim C9. On a rectangular grid \<open>countParticles\<close> returns the count of the last neighbour
  inside the grid, in the fixed order of \<open>dirs\<close>, and 0 when no neighbour is inside: it is
  no sum and no maximum. \<open>normalize\<close> (here \<open>normalize_cell\<close>) sets the cell to 0 exactly when
  that value exceeds 4. \<open>Display\<close> calls neither: each glyph of the steam effect is the shade
  of the cell's own, unchanged count.
\<close>

theorem countParticles_last_neighbour:
  assumes "is_grid w h counts"
  shows "countParticles row col counts =
      Inr (if neighbours w h row col = [] then 0
           else counts ! nat (fst (last (neighbours w h row col)))
                       ! nat (snd (last (neighbours w h row col))))
    \<and> (in_bounds w h (row, col) \<longrightarrow>
         (\<exists>v. countParticles row col counts = Inr v
            \<and> normalize_cell row col counts =
                Inr (if 4 < v then counts[nat row := (counts ! nat row)[nat col := 0]]
                     else counts)))
    \<and> (ascii ps = coffee_ascii \<longrightarrow>
         Display ps =
           (case count_cells (particles ps)
                   (zero_counts (ParamsX (ParticleParams ps)) (ParamsY (ParticleParams ps))) of
              Inl e \<Rightarrow> Inl e
            | Inr cs \<Rightarrow> Inr (Join (map (\<lambda>row. concat (map shade row)) (rev cs)) [CHR 0x0A])))"
  using countParticles_grid [OF assms] normalize_cell_grid [OF assms] Display_coffee by auto

theorem countParticles_last_neighbour_witness:
  "countParticles 1 1 [[9, 9, 9], [9, 0, 9], [1, 9, 9]] = Inr 1
   \<and> normalize_cell 1 1 [[9, 9, 9], [9, 0, 9], [1, 9, 9]] = Inr [[9, 9, 9], [9, 0, 9], [1, 9, 9]]
   \<and> countParticles 0 0 [[7]] = Inr 0
   \<and> normalize_cell 0 1 [[9, 9, 9], [9, 0, 9], [1, 9, 9]] = Inr [[9, 0, 9], [9, 0, 9], [1, 9, 9]]"
proof -
  have g: "is_grid 3 3 [[9, 9, 9], [9, 0, 9], [1, 9, 9]]" and g1: "is_grid 1 1 [[7]]"
    by (simp_all add: is_grid_def)
  have "countParticles 1 1 [[9, 9, 9], [9, 0, 9], [1, 9, 9]] = Inr 1
   \<and> normalize_cell 1 1 [[9, 9, 9], [9, 0, 9], [1, 9, 9]] = Inr [[9, 9, 9], [9, 0, 9], [1, 9, 9]]"
    using countParticles_last_neighbour [OF g, of 1 1 scene]
    by (auto simp: neighbours_def dirs_def in_bounds_def)
  moreover have "countParticles 0 0 [[7]] = Inr 0"
    using countParticles_last_neighbour [OF g1, of 0 0 scene]
    by (simp add: neighbours_def dirs_def in_bounds_def)
  moreover have "normalize_cell 0 1 [[9, 9, 9], [9, 0, 9], [1, 9, 9]] = Inr [[9, 0, 9], [9, 0, 9], [1, 9, 9]]"
    using countParticles_last_neighbour [OF g, of 0 1 scene]
    by (auto simp: neighbours_def dirs_def in_bounds_def)
  ultimately show ?thesis by simp
qed

end
